theory Spec2Isabelle
  imports Complex_Main
begin

section \<open>Values shared by the three stores\<close>

text \<open>
  A \<^verbatim>\<open>float64\<close> weight is only ever stored, returned and compared by the stores, never
  computed with. The finite values are read as reals (the two zeros of IEEE 754 are one
  value here, as they are for Go's \<^verbatim>\<open>==\<close>); the infinities and NaN are kept apart.
\<close>

datatype float64 = Num real | PosInf | NegInf | NaN

text \<open>Go's \<^verbatim>\<open>==\<close> on floats: a NaN is equal to nothing, itself included.\<close>

definition float_eq :: "float64 \<Rightarrow> float64 \<Rightarrow> bool" where
  "float_eq a b \<longleftrightarrow> a \<noteq> NaN \<and> b \<noteq> NaN \<and> a = b"

definition IsNaN :: "float64 \<Rightarrow> bool" where
  "IsNaN a \<longleftrightarrow> a = NaN"

text \<open>
  Modelled from the spec: \<^verbatim>\<open>isSame\<close> of package \<^verbatim>\<open>simple\<close> is called by the dense store
  but its file is not among the sources. The spec has an absent cell "compare equal to the
  configured absent sentinel"; the helper is that comparison with NaN made equal to NaN, so
  that a NaN sentinel can mark absence: \<^verbatim>\<open>a == b || (IsNaN(a) && IsNaN(b))\<close>.
\<close>

definition isSame :: "float64 \<Rightarrow> float64 \<Rightarrow> bool" where
  "isSame a b \<longleftrightarrow> float_eq a b \<or> (IsNaN a \<and> IsNaN b)"

text \<open>
  \<^verbatim>\<open>graph.Node\<close> is an interface with the one method \<^verbatim>\<open>ID()\<close>. A node value is its id
  together with whatever else the implementing type carries (\<open>payload\<close>), which no store
  ever looks at. \<^verbatim>\<open>simple.Node(i)\<close>, the node the dense store hands out, carries nothing.
  A nil interface value is \<open>None\<close> of the option type.
\<close>

datatype node = MkNode (ID: int) (payload: nat)

definition Node :: "int \<Rightarrow> node" where
  "Node i = MkNode i 0"

text \<open>\<^verbatim>\<open>graph.Edge\<close>: the methods \<^verbatim>\<open>From()\<close>, \<^verbatim>\<open>To()\<close>, \<^verbatim>\<open>Weight()\<close>; \<^verbatim>\<open>simple.Edge{F, T, W}\<close>.\<close>

datatype edge = Edge (edge_From: node) (edge_To: node) (edge_Weight: float64)

text \<open>Every panic the modelled code can raise, and the panics of the Go runtime and of
  the matrix library that it can run into.\<close>

datatype panic =
    NoSlot                \<comment> \<open>"simple: cannot allocate node: no slot"\<close>
  | Unreachable           \<comment> \<open>"unreachable"\<close>
  | NodeIDCollision int   \<comment> \<open>"simple: node ID collision: %d"\<close>
  | AddingSelfEdge        \<comment> \<open>"simple: adding self edge"\<close>
  | SetIllegalEdge        \<comment> \<open>"simple: set illegal edge"\<close>
  | ErrRowAccess          \<comment> \<open>mat64: row index out of range\<close>
  | ErrColAccess          \<comment> \<open>mat64: column index out of range\<close>
  | ErrShape              \<comment> \<open>mat64: dimension mismatch\<close>
  | NilMapAssign          \<comment> \<open>runtime: assignment to entry in nil map\<close>
  | NilDeref              \<comment> \<open>runtime: nil pointer dereference\<close>
  | IndexOutOfRange       \<comment> \<open>runtime: index out of range\<close>

text \<open>
  A method that mutates its receiver returns \<open>Return v s\<close> with the new state, or
  \<open>Panic p s\<close> with the state as the panic left it: a store is behind a pointer, so what
  was written before a panic stays written.
\<close>

datatype ('a, 's) outcome = Return 'a 's | Panic panic 's

fun state_of :: "('a, 's) outcome \<Rightarrow> 's" where
  "state_of (Return v s) = s"
| "state_of (Panic p s) = s"

text \<open>
  Modelled from the spec: the constant \<^verbatim>\<open>maxInt\<close> of package \<^verbatim>\<open>simple\<close> is used by \<^verbatim>\<open>NewNodeID\<close>
  but declared in a file that is not among the sources. It bounds the "id space" of the
  spec: the largest \<^verbatim>\<open>int\<close>, here of a 64-bit platform. \<open>minInt\<close> is the smallest.
\<close>

definition maxInt :: int where
  "maxInt = 2 ^ 63 - 1"

definition minInt :: int where
  "minInt = - (2 ^ 63)"

subsection \<open>Go maps\<close>

text \<open>
  A \<^verbatim>\<open>map[int]V\<close> is a partial function; a nil map reads as the empty one. \<open>lookup2\<close> is
  the two-step read \<^verbatim>\<open>m[x][y]\<close>, \<open>delete2\<close> is \<^verbatim>\<open>delete(m[x], y)\<close> (nothing happens when
  \<^verbatim>\<open>m[x]\<close> is nil), and \<open>keys\<close> is what a \<^verbatim>\<open>range\<close> over \<^verbatim>\<open>m[x]\<close> visits.
\<close>

definition len :: "(int \<rightharpoonup> 'v) \<Rightarrow> int" where
  "len m = int (card (dom m))"

definition lookup2 :: "(int \<rightharpoonup> (int \<rightharpoonup> 'v)) \<Rightarrow> int \<Rightarrow> int \<Rightarrow> 'v option" where
  "lookup2 m x y = (case m x of None \<Rightarrow> None | Some r \<Rightarrow> r y)"

definition delete2 :: "(int \<rightharpoonup> (int \<rightharpoonup> 'v)) \<Rightarrow> int \<Rightarrow> int \<Rightarrow> (int \<rightharpoonup> (int \<rightharpoonup> 'v))" where
  "delete2 m x y = (case m x of None \<Rightarrow> m | Some r \<Rightarrow> m(x \<mapsto> r(y := None)))"

definition keys :: "(int \<rightharpoonup> 'v) option \<Rightarrow> int set" where
  "keys r = (case r of None \<Rightarrow> {} | Some f \<Rightarrow> dom f)"

text \<open>
  The loop \<^verbatim>\<open>for k := range ks { delete(m[k], y) }\<close>. The deletions touch different inner
  maps, so the order in which Go visits the keys does not show in the result.
\<close>

definition delete2_each :: "(int \<rightharpoonup> (int \<rightharpoonup> 'v)) \<Rightarrow> int set \<Rightarrow> int \<Rightarrow> (int \<rightharpoonup> (int \<rightharpoonup> 'v))" where
  "delete2_each m ks y =
     (\<lambda>x. if x \<in> ks then (case m x of None \<Rightarrow> None | Some r \<Rightarrow> Some (r(y := None))) else m x)"

text \<open>
  The keys of a map in the order a \<^verbatim>\<open>range\<close> visits them. Go leaves the order open; the
  model takes it as the parameter \<open>order\<close>, a list of ids, and visits the keys in it.
\<close>

definition range_keys :: "int list \<Rightarrow> (int \<rightharpoonup> 'v) \<Rightarrow> int list" where
  "range_keys order m = filter (\<lambda>k. m k \<noteq> None) order"

subsection \<open>The id sets\<close>

text \<open>
  \<^verbatim>\<open>intsets.Sparse\<close> (golang.org/x/tools) is a finite set of ints. Its methods as the stores
  use them: \<^verbatim>\<open>Len\<close>, \<^verbatim>\<open>Has\<close>, \<^verbatim>\<open>Insert\<close> and \<^verbatim>\<open>Remove\<close> are \<open>card\<close>, \<open>\<in>\<close>, \<open>insert\<close> and set
  difference; \<^verbatim>\<open>TakeMin\<close> removes and reports the least element, or reports false on the
  empty set; \<^verbatim>\<open>Max\<close> is the greatest element, or the smallest int on the empty set.
\<close>

definition Len :: "int set \<Rightarrow> int" where
  "Len s = int (card s)"

definition TakeMin :: "int set \<Rightarrow> (int \<times> int set) option" where
  "TakeMin s = (if s = {} then None else Some (Min s, s - {Min s}))"

definition Max_ids :: "int set \<Rightarrow> int" where
  "Max_ids s = (if s = {} then minInt else Max s)"

text \<open>The last resort of \<^verbatim>\<open>NewNodeID\<close>:
  \<^verbatim>\<open>for id = 0; id < maxInt; id++ { if !usedIDs.Has(id) { return id } }\<close>,
  \<open>None\<close> when the loop runs out.\<close>

function scan_unused :: "int set \<Rightarrow> int \<Rightarrow> int option" where
  "scan_unused used i =
     (if i < maxInt then (if i \<notin> used then Some i else scan_unused used (i + 1)) else None)"
  by pat_completeness auto
termination
  by (relation "measure (\<lambda>(used, i). nat (maxInt - i))") auto

declare scan_unused.simps [simp del]

section \<open>The sparse directed store\<close>

record DirectedGraph =
  nodes_d :: "int \<rightharpoonup> node"
  from_d :: "int \<rightharpoonup> (int \<rightharpoonup> edge)"
  to_d :: "int \<rightharpoonup> (int \<rightharpoonup> edge)"
  self_d :: float64
  absent_d :: float64
  freeIDs_d :: "int set"
  usedIDs_d :: "int set"

definition NewDirectedGraph :: "float64 \<Rightarrow> float64 \<Rightarrow> DirectedGraph" where
  "NewDirectedGraph self absent =
     \<lparr>nodes_d = Map.empty, from_d = Map.empty, to_d = Map.empty,
      self_d = self, absent_d = absent, freeIDs_d = {}, usedIDs_d = {}\<rparr>"

definition NewNodeID_d :: "DirectedGraph \<Rightarrow> (int, DirectedGraph) outcome" where
  "NewNodeID_d g =
     (if len (nodes_d g) = 0 then Return 0 g
      else if len (nodes_d g) = maxInt then Panic NoSlot g
      else
        case (if Len (freeIDs_d g) \<noteq> 0 then TakeMin (freeIDs_d g) else None) of
          Some (i, rest) \<Rightarrow> Return i (g\<lparr>freeIDs_d := rest\<rparr>)
        | None \<Rightarrow>
            if Max_ids (usedIDs_d g) < maxInt then Return (Max_ids (usedIDs_d g) + 1) g
            else
              (case scan_unused (usedIDs_d g) 0 of
                 Some i \<Rightarrow> Return i g
               | None \<Rightarrow> Panic Unreachable g))"

definition AddNode_d :: "DirectedGraph \<Rightarrow> node \<Rightarrow> (unit, DirectedGraph) outcome" where
  "AddNode_d g n =
     (if nodes_d g (ID n) \<noteq> None then Panic (NodeIDCollision (ID n)) g
      else Return ()
        (g\<lparr>nodes_d := (nodes_d g)(ID n \<mapsto> n),
           from_d := (from_d g)(ID n \<mapsto> Map.empty),
           to_d := (to_d g)(ID n \<mapsto> Map.empty),
           freeIDs_d := freeIDs_d g - {ID n},
           usedIDs_d := insert (ID n) (usedIDs_d g)\<rparr>))"

definition RemoveNode_d :: "DirectedGraph \<Rightarrow> int \<Rightarrow> DirectedGraph" where
  "RemoveNode_d g i =
     (if nodes_d g i = None then g
      else
        let g1 = g\<lparr>nodes_d := (nodes_d g)(i := None)\<rparr>;
            g2 = g1\<lparr>to_d := delete2_each (to_d g1) (keys (from_d g1 i)) i\<rparr>;
            g3 = g2\<lparr>from_d := (from_d g2)(i := None)\<rparr>;
            g4 = g3\<lparr>from_d := delete2_each (from_d g3) (keys (to_d g3 i)) i\<rparr>;
            g5 = g4\<lparr>to_d := (to_d g4)(i := None)\<rparr>
        in g5\<lparr>freeIDs_d := insert i (freeIDs_d g5), usedIDs_d := usedIDs_d g5 - {i}\<rparr>)"

definition Has_d :: "DirectedGraph \<Rightarrow> int \<Rightarrow> bool" where
  "Has_d g n \<longleftrightarrow> nodes_d g n \<noteq> None"

text \<open>The two writes at the end of \<^verbatim>\<open>SetEdge\<close> each assign into an inner map, which panics
  when that map is nil.\<close>

definition SetEdge_d :: "DirectedGraph \<Rightarrow> edge \<Rightarrow> (unit, DirectedGraph) outcome" where
  "SetEdge_d g e =
     (let from = edge_From e; fid = ID from; to = edge_To e; tid = ID to in
      if fid = tid then Panic AddingSelfEdge g
      else
        case (if \<not> Has_d g fid then AddNode_d g from else Return () g) of
          Panic p g1 \<Rightarrow> Panic p g1
        | Return _ g1 \<Rightarrow>
            (case (if \<not> Has_d g1 tid then AddNode_d g1 to else Return () g1) of
               Panic p g2 \<Rightarrow> Panic p g2
             | Return _ g2 \<Rightarrow>
                 (case from_d g2 fid of
                    None \<Rightarrow> Panic NilMapAssign g2
                  | Some r \<Rightarrow>
                      let g3 = g2\<lparr>from_d := (from_d g2)(fid \<mapsto> r(tid \<mapsto> e))\<rparr> in
                      (case to_d g3 tid of
                         None \<Rightarrow> Panic NilMapAssign g3
                       | Some r' \<Rightarrow>
                           Return () (g3\<lparr>to_d := (to_d g3)(tid \<mapsto> r'(fid \<mapsto> e))\<rparr>)))))"

definition RemoveEdge_d :: "DirectedGraph \<Rightarrow> edge \<Rightarrow> DirectedGraph" where
  "RemoveEdge_d g e =
     (let fid = ID (edge_From e); tid = ID (edge_To e) in
      if nodes_d g fid = None then g
      else if nodes_d g tid = None then g
      else
        let g1 = g\<lparr>from_d := delete2 (from_d g) fid tid\<rparr>
        in g1\<lparr>to_d := delete2 (to_d g1) tid fid\<rparr>)"

text \<open>\<^verbatim>\<open>From\<close> and \<^verbatim>\<open>To\<close> return a slice of interface values: the entry for a key that
  \<^verbatim>\<open>g.nodes\<close> does not hold is nil. Both test \<^verbatim>\<open>g.from\<close> for the node.\<close>

definition From_d :: "int list \<Rightarrow> DirectedGraph \<Rightarrow> int \<Rightarrow> node option list" where
  "From_d order g n =
     (case from_d g n of
        None \<Rightarrow> []
      | Some r \<Rightarrow> map (nodes_d g) (range_keys order r))"

definition To_d :: "int list \<Rightarrow> DirectedGraph \<Rightarrow> int \<Rightarrow> node option list" where
  "To_d order g n =
     (case from_d g n of
        None \<Rightarrow> []
      | Some _ \<Rightarrow> map (nodes_d g) (range_keys order (case to_d g n of None \<Rightarrow> Map.empty | Some r \<Rightarrow> r)))"

definition Edge_d :: "DirectedGraph \<Rightarrow> int \<Rightarrow> int \<Rightarrow> edge option" where
  "Edge_d g u v =
     (if nodes_d g u = None then None
      else if nodes_d g v = None then None
      else lookup2 (from_d g) u v)"

definition HasEdgeFromTo_d :: "DirectedGraph \<Rightarrow> int \<Rightarrow> int \<Rightarrow> bool" where
  "HasEdgeFromTo_d g u v \<longleftrightarrow>
     (if nodes_d g u = None then False
      else if nodes_d g v = None then False
      else if lookup2 (from_d g) u v = None then False
      else True)"

definition Weight_d :: "DirectedGraph \<Rightarrow> int \<Rightarrow> int \<Rightarrow> float64 \<times> bool" where
  "Weight_d g x y =
     (if x = y then (self_d g, True)
      else
        case from_d g x of
          None \<Rightarrow> (absent_d g, False)
        | Some to \<Rightarrow>
            (case to y of
               None \<Rightarrow> (absent_d g, False)
             | Some e \<Rightarrow> (edge_Weight e, True)))"

definition Degree_d :: "DirectedGraph \<Rightarrow> int \<Rightarrow> int" where
  "Degree_d g n =
     (if nodes_d g n = None then 0
      else len (case from_d g n of None \<Rightarrow> Map.empty | Some r \<Rightarrow> r)
         + len (case to_d g n of None \<Rightarrow> Map.empty | Some r \<Rightarrow> r))"

text \<open>A run of the mutating methods from some state. A panic ends the call it happens in;
  the run goes on from the state the panic left, as it does for a caller that recovers.\<close>

datatype op = OpAddNode node | OpRemoveNode int | OpSetEdge edge | OpRemoveEdge edge | OpNewNodeID

fun step_d :: "DirectedGraph \<Rightarrow> op \<Rightarrow> DirectedGraph" where
  "step_d g (OpAddNode n) = state_of (AddNode_d g n)"
| "step_d g (OpRemoveNode i) = RemoveNode_d g i"
| "step_d g (OpSetEdge e) = state_of (SetEdge_d g e)"
| "step_d g (OpRemoveEdge e) = RemoveEdge_d g e"
| "step_d g OpNewNodeID = state_of (NewNodeID_d g)"

definition run_d :: "DirectedGraph \<Rightarrow> op list \<Rightarrow> DirectedGraph" where
  "run_d g ops = foldl step_d g ops"


text \<open>What every state that the methods can build satisfies: the three maps have the same
  keys, and the two adjacency maps mirror each other.\<close>

definition inv_d :: "DirectedGraph \<Rightarrow> bool" where
  "inv_d g \<longleftrightarrow>
     dom (from_d g) = dom (nodes_d g) \<and> dom (to_d g) = dom (nodes_d g) \<and>
     (\<forall>u v. lookup2 (from_d g) u v = lookup2 (to_d g) v u)"

section \<open>The sparse undirected store\<close>

record UndirectedGraph =
  nodes_u :: "int \<rightharpoonup> node"
  edges_u :: "int \<rightharpoonup> (int \<rightharpoonup> edge)"
  self_u :: float64
  absent_u :: float64
  freeIDs_u :: "int set"
  usedIDs_u :: "int set"

definition NewUndirectedGraph :: "float64 \<Rightarrow> float64 \<Rightarrow> UndirectedGraph" where
  "NewUndirectedGraph self absent =
     \<lparr>nodes_u = Map.empty, edges_u = Map.empty,
      self_u = self, absent_u = absent, freeIDs_u = {}, usedIDs_u = {}\<rparr>"

definition NewNodeID_u :: "UndirectedGraph \<Rightarrow> (int, UndirectedGraph) outcome" where
  "NewNodeID_u g =
     (if len (nodes_u g) = 0 then Return 0 g
      else if len (nodes_u g) = maxInt then Panic NoSlot g
      else
        case (if Len (freeIDs_u g) \<noteq> 0 then TakeMin (freeIDs_u g) else None) of
          Some (i, rest) \<Rightarrow> Return i (g\<lparr>freeIDs_u := rest\<rparr>)
        | None \<Rightarrow>
            if Max_ids (usedIDs_u g) < maxInt then Return (Max_ids (usedIDs_u g) + 1) g
            else
              (case scan_unused (usedIDs_u g) 0 of
                 Some i \<Rightarrow> Return i g
               | None \<Rightarrow> Panic Unreachable g))"

definition AddNode_u :: "UndirectedGraph \<Rightarrow> node \<Rightarrow> (unit, UndirectedGraph) outcome" where
  "AddNode_u g n =
     (if nodes_u g (ID n) \<noteq> None then Panic (NodeIDCollision (ID n)) g
      else Return ()
        (g\<lparr>nodes_u := (nodes_u g)(ID n \<mapsto> n),
           edges_u := (edges_u g)(ID n \<mapsto> Map.empty),
           freeIDs_u := freeIDs_u g - {ID n},
           usedIDs_u := insert (ID n) (usedIDs_u g)\<rparr>))"

definition RemoveNode_u :: "UndirectedGraph \<Rightarrow> int \<Rightarrow> UndirectedGraph" where
  "RemoveNode_u g n =
     (if nodes_u g n = None then g
      else
        let g1 = g\<lparr>nodes_u := (nodes_u g)(n := None)\<rparr>;
            g2 = g1\<lparr>edges_u := delete2_each (edges_u g1) (keys (edges_u g1 n)) n\<rparr>;
            g3 = g2\<lparr>edges_u := (edges_u g2)(n := None)\<rparr>
        in g3\<lparr>freeIDs_u := insert n (freeIDs_u g3), usedIDs_u := usedIDs_u g3 - {n}\<rparr>)"

definition Has_u :: "UndirectedGraph \<Rightarrow> int \<Rightarrow> bool" where
  "Has_u g n \<longleftrightarrow> nodes_u g n \<noteq> None"

definition SetEdge_u :: "UndirectedGraph \<Rightarrow> edge \<Rightarrow> (unit, UndirectedGraph) outcome" where
  "SetEdge_u g e =
     (let from = edge_From e; fid = ID from; to = edge_To e; tid = ID to in
      if fid = tid then Panic AddingSelfEdge g
      else
        case (if \<not> Has_u g fid then AddNode_u g from else Return () g) of
          Panic p g1 \<Rightarrow> Panic p g1
        | Return _ g1 \<Rightarrow>
            (case (if \<not> Has_u g1 tid then AddNode_u g1 to else Return () g1) of
               Panic p g2 \<Rightarrow> Panic p g2
             | Return _ g2 \<Rightarrow>
                 (case edges_u g2 fid of
                    None \<Rightarrow> Panic NilMapAssign g2
                  | Some r \<Rightarrow>
                      let g3 = g2\<lparr>edges_u := (edges_u g2)(fid \<mapsto> r(tid \<mapsto> e))\<rparr> in
                      (case edges_u g3 tid of
                         None \<Rightarrow> Panic NilMapAssign g3
                       | Some r' \<Rightarrow>
                           Return () (g3\<lparr>edges_u := (edges_u g3)(tid \<mapsto> r'(fid \<mapsto> e))\<rparr>)))))"

definition RemoveEdge_u :: "UndirectedGraph \<Rightarrow> edge \<Rightarrow> UndirectedGraph" where
  "RemoveEdge_u g e =
     (let fid = ID (edge_From e); tid = ID (edge_To e) in
      if nodes_u g fid = None then g
      else if nodes_u g tid = None then g
      else
        let g1 = g\<lparr>edges_u := delete2 (edges_u g) fid tid\<rparr>
        in g1\<lparr>edges_u := delete2 (edges_u g1) tid fid\<rparr>)"

definition Nodes_u :: "int list \<Rightarrow> UndirectedGraph \<Rightarrow> node option list" where
  "Nodes_u order g = map (nodes_u g) (range_keys order (nodes_u g))"

definition From_u :: "int list \<Rightarrow> UndirectedGraph \<Rightarrow> int \<Rightarrow> node option list" where
  "From_u order g n =
     (if \<not> Has_u g n then []
      else map (nodes_u g)
             (range_keys order (case edges_u g n of None \<Rightarrow> Map.empty | Some r \<Rightarrow> r)))"

definition EdgeBetween_u :: "UndirectedGraph \<Rightarrow> int \<Rightarrow> int \<Rightarrow> edge option" where
  "EdgeBetween_u g x y = (if \<not> Has_u g x then None else lookup2 (edges_u g) x y)"

definition Edge_u :: "UndirectedGraph \<Rightarrow> int \<Rightarrow> int \<Rightarrow> edge option" where
  "Edge_u g u v = EdgeBetween_u g u v"

definition Degree_u :: "UndirectedGraph \<Rightarrow> int \<Rightarrow> int" where
  "Degree_u g n =
     (if nodes_u g n = None then 0
      else len (case edges_u g n of None \<Rightarrow> Map.empty | Some r \<Rightarrow> r))"

fun step_u :: "UndirectedGraph \<Rightarrow> op \<Rightarrow> UndirectedGraph" where
  "step_u g (OpAddNode n) = state_of (AddNode_u g n)"
| "step_u g (OpRemoveNode i) = RemoveNode_u g i"
| "step_u g (OpSetEdge e) = state_of (SetEdge_u g e)"
| "step_u g (OpRemoveEdge e) = RemoveEdge_u g e"
| "step_u g OpNewNodeID = state_of (NewNodeID_u g)"

definition run_u :: "UndirectedGraph \<Rightarrow> op list \<Rightarrow> UndirectedGraph" where
  "run_u g ops = foldl step_u g ops"

definition inv_u :: "UndirectedGraph \<Rightarrow> bool" where
  "inv_u g \<longleftrightarrow> dom (edges_u g) = dom (nodes_u g)"

text \<open>The allocator's state as Go can hold it: finitely many nodes and ids, and the used
  ids are the ids of the nodes. (\<^verbatim>\<open>AddNode\<close> and \<^verbatim>\<open>RemoveNode\<close> keep the two in step.)\<close>

definition alloc_ok :: "(int \<rightharpoonup> node) \<Rightarrow> int set \<Rightarrow> int set \<Rightarrow> bool" where
  "alloc_ok nodes free used \<longleftrightarrow> finite free \<and> finite used \<and> used = dom nodes"


section \<open>The dense directed store\<close>

subsection \<open>The matrix library\<close>

text \<open>
  Modelled from the spec: \<^verbatim>\<open>mat64.Dense\<close> (gonum/matrix) is the "external 2-D numeric array
  collaborator supplying get(i,j), set(i,j,weight), dims() and copy-construct"; its code is
  not part of this repository. A \<^verbatim>\<open>Dense\<close> is a header (rows, columns, stride) and a slice
  of cells in row-major order. A slice refers to an array that other slices may share, so
  the arrays live in a heap and the header holds an address. \<^verbatim>\<open>At\<close> and \<^verbatim>\<open>Set\<close> panic on
  an index outside the dimensions; \<^verbatim>\<open>NewDense\<close> takes the slice it is given as its cells and
  panics when its length is not rows times columns.
\<close>

type_synonym heap = "float64 list list"

definition deref :: "heap \<Rightarrow> nat \<Rightarrow> float64 list" where
  "deref h a = (if a < length h then h ! a else [])"

definition alloc :: "heap \<Rightarrow> float64 list \<Rightarrow> nat \<times> heap" where
  "alloc h xs = (length h, h @ [xs])"

record Dense =
  Rows :: int
  Cols :: int
  Stride :: int
  Data :: nat

definition NewDense :: "heap \<Rightarrow> int \<Rightarrow> int \<Rightarrow> nat \<Rightarrow> panic + Dense" where
  "NewDense h r c a =
     (if r * c \<noteq> int (length (deref h a)) then Inl ErrShape
      else Inr \<lparr>Rows = r, Cols = c, Stride = c, Data = a\<rparr>)"

definition Dims :: "Dense \<Rightarrow> int \<times> int" where
  "Dims m = (Rows m, Cols m)"

definition At :: "heap \<Rightarrow> Dense \<Rightarrow> int \<Rightarrow> int \<Rightarrow> panic + float64" where
  "At h m i j =
     (if \<not> (0 \<le> i \<and> i < Rows m) then Inl ErrRowAccess
      else if \<not> (0 \<le> j \<and> j < Cols m) then Inl ErrColAccess
      else
        let k = i * Stride m + j; cells = deref h (Data m) in
        if 0 \<le> k \<and> k < int (length cells) then Inr (cells ! nat k) else Inl IndexOutOfRange)"

definition Set :: "heap \<Rightarrow> Dense \<Rightarrow> int \<Rightarrow> int \<Rightarrow> float64 \<Rightarrow> panic + heap" where
  "Set h m i j v =
     (if \<not> (0 \<le> i \<and> i < Rows m) then Inl ErrRowAccess
      else if \<not> (0 \<le> j \<and> j < Cols m) then Inl ErrColAccess
      else
        let k = i * Stride m + j; cells = deref h (Data m) in
        if 0 \<le> k \<and> k < int (length cells) then Inr (h[Data m := cells[nat k := v]])
        else Inl IndexOutOfRange)"

subsection \<open>The store\<close>

text \<open>The field \<^verbatim>\<open>mat\<close> points to a header that no method of the store ever changes, so the
  record holds the header itself; \<^verbatim>\<open>nodes\<close> is nil or the node list given at construction.\<close>

record DirectedMatrix =
  mat_m :: Dense
  nodes_m :: "node list option"
  self_m :: float64
  absent_m :: float64

text \<open>The loop \<^verbatim>\<open>for i := 0; i < len(mat); i += n + 1 { mat[i] = self }\<close>. With \<^verbatim>\<open>n = -1\<close> it
  never ends, so it is a partial function.\<close>

partial_function (option) fill_diag :: "float64 list \<Rightarrow> int \<Rightarrow> float64 \<Rightarrow> int \<Rightarrow> (panic + float64 list) option" where
  "fill_diag mat n self i =
     (if i < int (length mat) then
        (if 0 \<le> i then fill_diag (mat[nat i := self]) n self (i + (n + 1))
         else Some (Inl IndexOutOfRange))
      else Some (Inr mat))"

declare fill_diag.simps [code]

text \<open>\<^verbatim>\<open>make\<close> zeroes the cells; they are filled before the array is entered in the heap,
  which no one else can see meanwhile.\<close>

definition NewDirectedMatrix :: "heap \<Rightarrow> int \<Rightarrow> float64 \<Rightarrow> float64 \<Rightarrow> float64 \<Rightarrow> (DirectedMatrix, heap) outcome option" where
  "NewDirectedMatrix h n init self absent =
     (let mat0 = replicate (nat (n * n)) (Num 0);
          mat1 = (if \<not> float_eq init (Num 0) then map (\<lambda>_. init) mat0 else mat0) in
      case fill_diag mat1 n self 0 of
        None \<Rightarrow> None
      | Some (Inl p) \<Rightarrow> Some (Panic p h)
      | Some (Inr mat2) \<Rightarrow>
          (case alloc h mat2 of
             (a, h') \<Rightarrow>
               (case NewDense h' n n a of
                  Inl p \<Rightarrow> Some (Panic p h')
                | Inr d \<Rightarrow>
                    Some (Return \<lparr>mat_m = d, nodes_m = None, self_m = self, absent_m = absent\<rparr> h'))))"

definition has_m :: "DirectedMatrix \<Rightarrow> int \<Rightarrow> bool" where
  "has_m g i \<longleftrightarrow> (case Dims (mat_m g) of (r, _) \<Rightarrow> 0 \<le> i \<and> i < r)"

definition Has_m :: "DirectedMatrix \<Rightarrow> int \<Rightarrow> bool" where
  "Has_m g n \<longleftrightarrow> has_m g n"

definition Node_m :: "DirectedMatrix \<Rightarrow> int \<Rightarrow> panic + node option" where
  "Node_m g i =
     (if \<not> has_m g i then Inr None
      else
        case nodes_m g of
          None \<Rightarrow> Inr (Some (Node i))
        | Some ns \<Rightarrow> if i < int (length ns) then Inr (Some (ns ! nat i)) else Inl IndexOutOfRange)"

function From_loop :: "heap \<Rightarrow> DirectedMatrix \<Rightarrow> int \<Rightarrow> int \<Rightarrow> int \<Rightarrow> node option list \<Rightarrow> panic + node option list" where
  "From_loop h g i c j neighbors =
     (if j < c then
        (if j = i then From_loop h g i c (j + 1) neighbors
         else
           case At h (mat_m g) i j of
             Inl p \<Rightarrow> Inl p
           | Inr w \<Rightarrow>
               if \<not> isSame w (absent_m g) then
                 (case Node_m g j of
                    Inl p \<Rightarrow> Inl p
                  | Inr nd \<Rightarrow> From_loop h g i c (j + 1) (neighbors @ [nd]))
               else From_loop h g i c (j + 1) neighbors)
      else Inr neighbors)"
  by pat_completeness auto
termination
  by (relation "measure (\<lambda>(h, g, i, c, j, neighbors). nat (c - j))") auto

declare From_loop.simps [simp del]

definition From_m :: "heap \<Rightarrow> DirectedMatrix \<Rightarrow> int \<Rightarrow> panic + node option list" where
  "From_m h g i =
     (if \<not> has_m g i then Inr []
      else case Dims (mat_m g) of (_, c) \<Rightarrow> From_loop h g i c 0 [])"

function To_loop :: "heap \<Rightarrow> DirectedMatrix \<Rightarrow> int \<Rightarrow> int \<Rightarrow> int \<Rightarrow> node option list \<Rightarrow> panic + node option list" where
  "To_loop h g j r i neighbors =
     (if i < r then
        (if i = j then To_loop h g j r (i + 1) neighbors
         else
           case At h (mat_m g) i j of
             Inl p \<Rightarrow> Inl p
           | Inr w \<Rightarrow>
               if \<not> isSame w (absent_m g) then
                 (case Node_m g i of
                    Inl p \<Rightarrow> Inl p
                  | Inr nd \<Rightarrow> To_loop h g j r (i + 1) (neighbors @ [nd]))
               else To_loop h g j r (i + 1) neighbors)
      else Inr neighbors)"
  by pat_completeness auto
termination
  by (relation "measure (\<lambda>(h, g, j, r, i, neighbors). nat (r - i))") auto

declare To_loop.simps [simp del]

definition To_m :: "heap \<Rightarrow> DirectedMatrix \<Rightarrow> int \<Rightarrow> panic + node option list" where
  "To_m h g j =
     (if \<not> has_m g j then Inr []
      else case Dims (mat_m g) of (r, _) \<Rightarrow> To_loop h g j r 0 [])"

definition HasEdgeFromTo_m :: "heap \<Rightarrow> DirectedMatrix \<Rightarrow> int \<Rightarrow> int \<Rightarrow> panic + bool" where
  "HasEdgeFromTo_m h g u v =
     (if \<not> has_m g u then Inr False
      else if \<not> has_m g v then Inr False
      else if u = v then Inr False
      else case At h (mat_m g) u v of
             Inl p \<Rightarrow> Inl p
           | Inr w \<Rightarrow> Inr (\<not> isSame w (absent_m g)))"

definition Weight_m :: "heap \<Rightarrow> DirectedMatrix \<Rightarrow> int \<Rightarrow> int \<Rightarrow> panic + (float64 \<times> bool)" where
  "Weight_m h g x y =
     (if x = y then Inr (self_m g, True)
      else if has_m g x \<and> has_m g y then
        (case At h (mat_m g) x y of
           Inl p \<Rightarrow> Inl p
         | Inr w \<Rightarrow> Inr (w, True))
      else Inr (absent_m g, False))"

definition SetEdge_m :: "heap \<Rightarrow> DirectedMatrix \<Rightarrow> edge \<Rightarrow> (unit, heap) outcome" where
  "SetEdge_m h g e =
     (let fid = ID (edge_From e); tid = ID (edge_To e) in
      if fid = tid then Panic SetIllegalEdge h
      else case Set h (mat_m g) fid tid (edge_Weight e) of
             Inl p \<Rightarrow> Panic p h
           | Inr h' \<Rightarrow> Return () h')"

text \<open>The two loops of \<^verbatim>\<open>Degree\<close>: along row \<open>j\<close>, then along column \<open>j\<close>.\<close>

function Degree_row :: "heap \<Rightarrow> DirectedMatrix \<Rightarrow> int \<Rightarrow> int \<Rightarrow> int \<Rightarrow> int \<Rightarrow> panic + int" where
  "Degree_row h g j r i deg =
     (if i < r then
        (if i = j then Degree_row h g j r (i + 1) deg
         else
           case At h (mat_m g) j i of
             Inl p \<Rightarrow> Inl p
           | Inr w \<Rightarrow> Degree_row h g j r (i + 1) (if \<not> isSame w (absent_m g) then deg + 1 else deg))
      else Inr deg)"
  by pat_completeness auto
termination
  by (relation "measure (\<lambda>(h, g, j, r, i, deg). nat (r - i))") auto

declare Degree_row.simps [simp del]

function Degree_col :: "heap \<Rightarrow> DirectedMatrix \<Rightarrow> int \<Rightarrow> int \<Rightarrow> int \<Rightarrow> int \<Rightarrow> panic + int" where
  "Degree_col h g j c i deg =
     (if i < c then
        (if i = j then Degree_col h g j c (i + 1) deg
         else
           case At h (mat_m g) i j of
             Inl p \<Rightarrow> Inl p
           | Inr w \<Rightarrow> Degree_col h g j c (i + 1) (if \<not> isSame w (absent_m g) then deg + 1 else deg))
      else Inr deg)"
  by pat_completeness auto
termination
  by (relation "measure (\<lambda>(h, g, j, c, i, deg). nat (c - i))") auto

declare Degree_col.simps [simp del]

definition Degree_m :: "heap \<Rightarrow> DirectedMatrix \<Rightarrow> int \<Rightarrow> panic + int" where
  "Degree_m h g j =
     (case Dims (mat_m g) of
        (r, c) \<Rightarrow>
          (case Degree_row h g j r 0 0 of
             Inl p \<Rightarrow> Inl p
           | Inr deg \<Rightarrow> Degree_col h g j c 0 deg))"

text \<open>\<^verbatim>\<open>m := *g.mat; return &m\<close>: a fresh header with the fields of the store's header, the
  address of the cells among them.\<close>

definition Matrix_m :: "DirectedMatrix \<Rightarrow> Dense" where
  "Matrix_m g = mat_m g"

text \<open>The dense stores that \<^verbatim>\<open>NewDirectedMatrix\<close> builds: square, the stride the number of
  columns, and as many cells as the dimensions say.\<close>

definition valid_m :: "heap \<Rightarrow> DirectedMatrix \<Rightarrow> bool" where
  "valid_m h g \<longleftrightarrow>
     0 \<le> Rows (mat_m g) \<and> Cols (mat_m g) = Rows (mat_m g) \<and> Stride (mat_m g) = Rows (mat_m g) \<and>
     Data (mat_m g) < length h \<and>
     int (length (h ! Data (mat_m g))) = Rows (mat_m g) * Cols (mat_m g)"

section \<open>Copy\<close>

text \<open>
  \<^verbatim>\<open>Copy(dst Builder, src Graph)\<close> sees both graphs through their interfaces only. The source
  is the three methods \<^verbatim>\<open>Copy\<close> calls, as functions; the destination is a state and its two
  mutating methods. Calling a method on a nil node or edge is a nil dereference.
\<close>

record Graph =
  g_Nodes :: "node option list"
  g_From :: "int \<Rightarrow> node option list"
  g_Edge :: "int \<Rightarrow> int \<Rightarrow> edge option"

record 's Builder =
  b_AddNode :: "'s \<Rightarrow> node \<Rightarrow> (unit, 's) outcome"
  b_SetEdge :: "'s \<Rightarrow> edge \<Rightarrow> (unit, 's) outcome"

fun Copy_nodes :: "'s Builder \<Rightarrow> 's \<Rightarrow> node option list \<Rightarrow> (unit, 's) outcome" where
  "Copy_nodes dst d [] = Return () d"
| "Copy_nodes dst d (n # ns) =
     (case n of
        None \<Rightarrow> Panic NilDeref d
      | Some n' \<Rightarrow>
          (case b_AddNode dst d n' of
             Panic p d' \<Rightarrow> Panic p d'
           | Return _ d' \<Rightarrow> Copy_nodes dst d' ns))"

fun Copy_from :: "'s Builder \<Rightarrow> Graph \<Rightarrow> 's \<Rightarrow> node \<Rightarrow> node option list \<Rightarrow> (unit, 's) outcome" where
  "Copy_from dst src d u [] = Return () d"
| "Copy_from dst src d u (v # vs) =
     (case v of
        None \<Rightarrow> Panic NilDeref d
      | Some v' \<Rightarrow>
          (case g_Edge src (ID u) (ID v') of
             None \<Rightarrow> Panic NilDeref d
           | Some e \<Rightarrow>
               (case b_SetEdge dst d e of
                  Panic p d' \<Rightarrow> Panic p d'
                | Return _ d' \<Rightarrow> Copy_from dst src d' u vs)))"

fun Copy_edges :: "'s Builder \<Rightarrow> Graph \<Rightarrow> 's \<Rightarrow> node option list \<Rightarrow> (unit, 's) outcome" where
  "Copy_edges dst src d [] = Return () d"
| "Copy_edges dst src d (u # us) =
     (case u of
        None \<Rightarrow> Panic NilDeref d
      | Some u' \<Rightarrow>
          (case Copy_from dst src d u' (g_From src (ID u')) of
             Panic p d' \<Rightarrow> Panic p d'
           | Return _ d' \<Rightarrow> Copy_edges dst src d' us))"

definition Copy :: "'s Builder \<Rightarrow> Graph \<Rightarrow> 's \<Rightarrow> (unit, 's) outcome" where
  "Copy dst src d =
     (case Copy_nodes dst d (g_Nodes src) of
        Panic p d' \<Rightarrow> Panic p d'
      | Return _ d' \<Rightarrow> Copy_edges dst src d' (g_Nodes src))"

text \<open>The sparse stores behind the two interfaces.\<close>

definition Graph_u :: "int list \<Rightarrow> UndirectedGraph \<Rightarrow> Graph" where
  "Graph_u order g = \<lparr>g_Nodes = Nodes_u order g, g_From = From_u order g, g_Edge = Edge_u g\<rparr>"

definition Builder_d :: "DirectedGraph Builder" where
  "Builder_d = \<lparr>b_AddNode = AddNode_d, b_SetEdge = SetEdge_d\<rparr>"


section \<open>Facts about the values and the map operations\<close>

lemma ID_Node [simp]: "ID (Node i) = i"
  by (simp add: Node_def)

lemma lookup2_upd [simp]:
  "lookup2 (m(x \<mapsto> r)) u v = (if u = x then r v else lookup2 m u v)"
  by (simp add: lookup2_def)

lemma lookup2_del [simp]:
  "lookup2 (m(x := None)) u v = (if u = x then None else lookup2 m u v)"
  by (simp add: lookup2_def)

lemma lookup2_delete2 [simp]:
  "lookup2 (delete2 m x y) u v = (if u = x \<and> v = y then None else lookup2 m u v)"
  by (auto simp: lookup2_def delete2_def split: option.splits)

lemma lookup2_delete2_each [simp]:
  "lookup2 (delete2_each m ks y) u v = (if u \<in> ks \<and> v = y then None else lookup2 m u v)"
  by (auto simp: lookup2_def delete2_each_def split: option.splits)

lemma dom_delete2 [simp]: "dom (delete2 m x y) = dom m"
  by (auto simp: delete2_def split: option.splits)

lemma dom_delete2_each [simp]: "dom (delete2_each m ks y) = dom m"
  by (auto simp: delete2_each_def split: option.splits if_splits)

lemma in_keys [simp]: "x \<in> keys (m i) \<longleftrightarrow> lookup2 m i x \<noteq> None"
  by (auto simp: keys_def lookup2_def split: option.splits)

lemma lookup2_None: "m x = None \<Longrightarrow> lookup2 m x y = None"
  by (simp add: lookup2_def)

section \<open>The sparse directed store keeps its invariant\<close>

lemma inv_d_New: "inv_d (NewDirectedGraph s a)"
  by (simp add: inv_d_def NewDirectedGraph_def lookup2_def)

lemma inv_d_absent:
  "inv_d g \<Longrightarrow> nodes_d g i = None \<Longrightarrow>
     lookup2 (from_d g) i v = None \<and> lookup2 (from_d g) v i = None \<and>
     lookup2 (to_d g) i v = None \<and> lookup2 (to_d g) v i = None"
  unfolding inv_d_def by (metis domIff lookup2_None)

lemma inv_d_AddNode: "inv_d g \<Longrightarrow> inv_d (state_of (AddNode_d g n))"
proof (cases "nodes_d g (ID n) = None")
  case False
  assume "inv_d g"
  with False show ?thesis by (simp add: AddNode_d_def)
next
  case True
  assume i: "inv_d g"
  have a: "\<And>v. lookup2 (from_d g) (ID n) v = None \<and> lookup2 (from_d g) v (ID n) = None \<and>
                lookup2 (to_d g) (ID n) v = None \<and> lookup2 (to_d g) v (ID n) = None"
    using inv_d_absent[OF i True] by blast
  show ?thesis using i True a
    by (simp add: AddNode_d_def inv_d_def)
qed

lemma inv_d_RemoveNode: "inv_d g \<Longrightarrow> inv_d (RemoveNode_d g i)"
  unfolding inv_d_def RemoveNode_d_def Let_def by simp

lemma inv_d_RemoveEdge: "inv_d g \<Longrightarrow> inv_d (RemoveEdge_d g e)"
  unfolding inv_d_def RemoveEdge_d_def Let_def by simp

lemma NewNodeID_d_frame:
  "nodes_d (state_of (NewNodeID_d g)) = nodes_d g \<and>
   from_d (state_of (NewNodeID_d g)) = from_d g \<and>
   to_d (state_of (NewNodeID_d g)) = to_d g \<and>
   usedIDs_d (state_of (NewNodeID_d g)) = usedIDs_d g"
  unfolding NewNodeID_d_def by (simp split: option.splits prod.splits)

lemma inv_d_NewNodeID: "inv_d g \<Longrightarrow> inv_d (state_of (NewNodeID_d g))"
  unfolding inv_d_def by (simp add: NewNodeID_d_frame)

text \<open>In a state with the invariant, \<^verbatim>\<open>SetEdge\<close> with distinct ends returns, and its result
  is the state after the two guarded \<^verbatim>\<open>AddNode\<close> calls with the two entries written.\<close>

lemma inv_d_SetEdge: "inv_d g \<Longrightarrow> inv_d (state_of (SetEdge_d g e))"
proof -
  assume i: "inv_d g"
  let ?fid = "ID (edge_From e)" and ?tid = "ID (edge_To e)"
  define g1 where "g1 = (if \<not> Has_d g ?fid then state_of (AddNode_d g (edge_From e)) else g)"
  define g2 where "g2 = (if \<not> Has_d g1 ?tid then state_of (AddNode_d g1 (edge_To e)) else g1)"
  have i1: "inv_d g1" using i by (simp add: g1_def inv_d_AddNode)
  have i2: "inv_d g2" using i1 by (simp add: g2_def inv_d_AddNode)
  have h1: "nodes_d g1 ?fid \<noteq> None"
    by (auto simp: g1_def Has_d_def AddNode_d_def)
  have h2: "nodes_d g2 ?fid \<noteq> None \<and> nodes_d g2 ?tid \<noteq> None"
    using h1 by (auto simp: g2_def Has_d_def AddNode_d_def)
  obtain r where r: "from_d g2 ?fid = Some r"
    using i2 h2 unfolding inv_d_def by (metis domD domIff)
  obtain r' where r': "to_d g2 ?tid = Some r'"
    using i2 h2 unfolding inv_d_def by (metis domD domIff)
  have s: "SetEdge_d g e =
      (if ?fid = ?tid then Panic AddingSelfEdge g
       else Return () (g2\<lparr>from_d := (from_d g2)(?fid \<mapsto> r(?tid \<mapsto> e)),
                           to_d := (to_d g2)(?tid \<mapsto> r'(?fid \<mapsto> e))\<rparr>))"
    using r r'
    by (auto simp: SetEdge_d_def Let_def g1_def g2_def AddNode_d_def Has_d_def
             split: outcome.splits)
  have l1: "\<And>v. r v = lookup2 (from_d g2) ?fid v" using r by (simp add: lookup2_def)
  have l2: "\<And>v. r' v = lookup2 (to_d g2) ?tid v" using r' by (simp add: lookup2_def)
  show ?thesis
  proof (cases "?fid = ?tid")
    case True
    then show ?thesis using i s by simp
  next
    case False
    then show ?thesis using i2 r r' unfolding s inv_d_def
      by (auto simp: l1 l2)
  qed
qed

lemma inv_d_step: "inv_d g \<Longrightarrow> inv_d (step_d g x)"
  by (cases x)
     (simp_all add: inv_d_AddNode inv_d_RemoveNode inv_d_SetEdge inv_d_RemoveEdge inv_d_NewNodeID)

lemma inv_d_foldl: "inv_d g \<Longrightarrow> inv_d (foldl step_d g ops)"
  by (induction ops arbitrary: g) (simp_all add: inv_d_step)

lemma inv_d_run: "inv_d (run_d (NewDirectedGraph s a) ops)"
  unfolding run_d_def by (rule inv_d_foldl) (rule inv_d_New)

text \<open>
  Claim C2. Sparse directed store: start from the empty graph and run any sequence of
  \<^verbatim>\<open>AddNode\<close>, \<^verbatim>\<open>RemoveNode\<close>, \<^verbatim>\<open>SetEdge\<close>, \<^verbatim>\<open>RemoveEdge\<close> (and \<^verbatim>\<open>NewNodeID\<close>) calls, going on
  after a call that panicked. Then for all ids \<open>u\<close> and \<open>v\<close>, what \<^verbatim>\<open>from[u][v]\<close> holds (an edge,
  or nothing) is exactly what \<^verbatim>\<open>to[v][u]\<close> holds.
\<close>

theorem directed_mirror:
  "lookup2 (from_d (run_d (NewDirectedGraph self absent) ops)) u v =
   lookup2 (to_d (run_d (NewDirectedGraph self absent) ops)) v u"
  using inv_d_run[of self absent ops] unfolding inv_d_def by blast


section \<open>The sparse undirected store\<close>

lemma inv_u_New: "inv_u (NewUndirectedGraph s a)"
  by (simp add: inv_u_def NewUndirectedGraph_def)

lemma inv_u_AddNode: "inv_u g \<Longrightarrow> inv_u (state_of (AddNode_u g n))"
  by (auto simp: inv_u_def AddNode_u_def)

lemma inv_u_RemoveNode: "inv_u g \<Longrightarrow> inv_u (RemoveNode_u g i)"
  unfolding inv_u_def RemoveNode_u_def Let_def by simp

lemma inv_u_RemoveEdge: "inv_u g \<Longrightarrow> inv_u (RemoveEdge_u g e)"
  unfolding inv_u_def RemoveEdge_u_def Let_def by simp

lemma NewNodeID_u_frame:
  "nodes_u (state_of (NewNodeID_u g)) = nodes_u g \<and>
   edges_u (state_of (NewNodeID_u g)) = edges_u g \<and>
   usedIDs_u (state_of (NewNodeID_u g)) = usedIDs_u g"
  unfolding NewNodeID_u_def by (simp split: option.splits prod.splits)

lemma inv_u_NewNodeID: "inv_u g \<Longrightarrow> inv_u (state_of (NewNodeID_u g))"
  unfolding inv_u_def by (simp add: NewNodeID_u_frame)

lemma SetEdge_u_result:
  assumes i: "inv_u g" and ne: "ID (edge_From e) \<noteq> ID (edge_To e)"
  shows "\<exists>g2 r r'. inv_u g2 \<and>
           nodes_u g2 (ID (edge_From e)) \<noteq> None \<and> nodes_u g2 (ID (edge_To e)) \<noteq> None \<and>
           edges_u g2 (ID (edge_From e)) = Some r \<and>
           ((edges_u g2)(ID (edge_From e) \<mapsto> r(ID (edge_To e) \<mapsto> e))) (ID (edge_To e)) = Some r' \<and>
           SetEdge_u g e = Return ()
             (g2\<lparr>edges_u := (edges_u g2)(ID (edge_From e) \<mapsto> r(ID (edge_To e) \<mapsto> e),
                                          ID (edge_To e) \<mapsto> r'(ID (edge_From e) \<mapsto> e))\<rparr>)"
proof -
  let ?fid = "ID (edge_From e)" and ?tid = "ID (edge_To e)"
  define g1 where "g1 = (if \<not> Has_u g ?fid then state_of (AddNode_u g (edge_From e)) else g)"
  define g2 where "g2 = (if \<not> Has_u g1 ?tid then state_of (AddNode_u g1 (edge_To e)) else g1)"
  have i1: "inv_u g1" using i by (simp add: g1_def inv_u_AddNode)
  have i2: "inv_u g2" using i1 by (simp add: g2_def inv_u_AddNode)
  have h1: "nodes_u g1 ?fid \<noteq> None"
    by (auto simp: g1_def Has_u_def AddNode_u_def)
  have h2: "nodes_u g2 ?fid \<noteq> None \<and> nodes_u g2 ?tid \<noteq> None"
    using h1 by (auto simp: g2_def Has_u_def AddNode_u_def)
  obtain r where r: "edges_u g2 ?fid = Some r"
    using i2 h2 unfolding inv_u_def by (metis domD domIff)
  obtain r' where r': "edges_u g2 ?tid = Some r'"
    using i2 h2 unfolding inv_u_def by (metis domD domIff)
  have s: "SetEdge_u g e =
       Return () (g2\<lparr>edges_u := (edges_u g2)(?fid \<mapsto> r(?tid \<mapsto> e), ?tid \<mapsto> r'(?fid \<mapsto> e))\<rparr>)"
    using r r' ne
    by (auto simp: SetEdge_u_def Let_def g1_def g2_def AddNode_u_def Has_u_def
             split: outcome.splits)
  have r2: "((edges_u g2)(?fid \<mapsto> r(?tid \<mapsto> e))) ?tid = Some r'"
    using r' ne by simp
  show ?thesis
    apply (rule exI[of _ g2], rule exI[of _ r], rule exI[of _ r'])
    using i2 h2 r r2 s by simp
qed

lemma inv_u_SetEdge: "inv_u g \<Longrightarrow> inv_u (state_of (SetEdge_u g e))"
proof (cases "ID (edge_From e) = ID (edge_To e)")
  case True
  assume "inv_u g"
  then show ?thesis using True by (simp add: SetEdge_u_def)
next
  case False
  assume i: "inv_u g"
  from SetEdge_u_result[OF i False] obtain g2 r r' where
    "inv_u g2" "nodes_u g2 (ID (edge_From e)) \<noteq> None" "nodes_u g2 (ID (edge_To e)) \<noteq> None"
    "SetEdge_u g e = Return ()
             (g2\<lparr>edges_u := (edges_u g2)(ID (edge_From e) \<mapsto> r(ID (edge_To e) \<mapsto> e),
                                          ID (edge_To e) \<mapsto> r'(ID (edge_From e) \<mapsto> e))\<rparr>)"
    by blast
  then show ?thesis by (auto simp: inv_u_def)
qed

lemma inv_u_step: "inv_u g \<Longrightarrow> inv_u (step_u g x)"
  by (cases x)
     (simp_all add: inv_u_AddNode inv_u_RemoveNode inv_u_SetEdge inv_u_RemoveEdge inv_u_NewNodeID)

lemma inv_u_foldl: "inv_u g \<Longrightarrow> inv_u (foldl step_u g ops)"
  by (induction ops arbitrary: g) (simp_all add: inv_u_step)

lemma inv_u_run: "inv_u (run_u (NewUndirectedGraph s a) ops)"
  unfolding run_u_def by (rule inv_u_foldl) (rule inv_u_New)

text \<open>
  Claim C8. Sparse undirected store, in any state that the mutating methods build from the
  empty graph: for every edge \<open>e\<close> whose ends \<open>F\<close> and \<open>T\<close> have different ids, \<^verbatim>\<open>SetEdge(e)\<close>
  returns, and then \<^verbatim>\<open>EdgeBetween(F,T)\<close> and \<^verbatim>\<open>EdgeBetween(T,F)\<close> are both \<open>e\<close>; after
  \<^verbatim>\<open>RemoveEdge(e)\<close> on that state both are nil.
\<close>

theorem undirected_set_then_remove:
  assumes ne: "ID (edge_From e) \<noteq> ID (edge_To e)"
  shows "\<exists>g'. SetEdge_u (run_u (NewUndirectedGraph s a) ops) e = Return () g' \<and>
     EdgeBetween_u g' (ID (edge_From e)) (ID (edge_To e)) = Some e \<and>
     EdgeBetween_u g' (ID (edge_To e)) (ID (edge_From e)) = Some e \<and>
     EdgeBetween_u (RemoveEdge_u g' e) (ID (edge_From e)) (ID (edge_To e)) = None \<and>
     EdgeBetween_u (RemoveEdge_u g' e) (ID (edge_To e)) (ID (edge_From e)) = None"
proof -
  from SetEdge_u_result[OF inv_u_run[of s a ops] ne] obtain g2 r r' where
    h: "nodes_u g2 (ID (edge_From e)) \<noteq> None" "nodes_u g2 (ID (edge_To e)) \<noteq> None"
    and s: "SetEdge_u (run_u (NewUndirectedGraph s a) ops) e = Return ()
             (g2\<lparr>edges_u := (edges_u g2)(ID (edge_From e) \<mapsto> r(ID (edge_To e) \<mapsto> e),
                                          ID (edge_To e) \<mapsto> r'(ID (edge_From e) \<mapsto> e))\<rparr>)"
    by blast
  show ?thesis unfolding s using h ne
    by (auto simp: EdgeBetween_u_def Has_u_def RemoveEdge_u_def Let_def)
qed


theorem undirected_set_then_remove_witness:
  "\<exists>g'. SetEdge_u (run_u (NewUndirectedGraph (Num 0) (Num 0)) [OpAddNode (MkNode 3 0)])
           (Edge (MkNode 3 0) (MkNode 4 1) (Num 2)) = Return () g' \<and>
     EdgeBetween_u g' 3 4 = Some (Edge (MkNode 3 0) (MkNode 4 1) (Num 2)) \<and>
     EdgeBetween_u g' 4 3 = Some (Edge (MkNode 3 0) (MkNode 4 1) (Num 2)) \<and>
     EdgeBetween_u (RemoveEdge_u g' (Edge (MkNode 3 0) (MkNode 4 1) (Num 2))) 3 4 = None \<and>
     EdgeBetween_u (RemoveEdge_u g' (Edge (MkNode 3 0) (MkNode 4 1) (Num 2))) 4 3 = None"
proof -
  have ne: "ID (edge_From (Edge (MkNode 3 0) (MkNode 4 1) (Num 2))) \<noteq>
            ID (edge_To (Edge (MkNode 3 0) (MkNode 4 1) (Num 2)))"
    by simp
  show ?thesis
    using undirected_set_then_remove[OF ne, of "Num 0" "Num 0" "[OpAddNode (MkNode 3 0)]"]
    by simp
qed


section \<open>The id allocator\<close>

lemma maxInt_small [simp]:
  "maxInt \<noteq> 0" "maxInt \<noteq> 1" "maxInt \<noteq> 2" "maxInt \<noteq> 3"
  "0 < maxInt" "1 < maxInt" "2 < maxInt" "3 < maxInt"
  by (simp_all add: maxInt_def)

lemma len_0_iff: "finite (dom m) \<Longrightarrow> len m = 0 \<longleftrightarrow> m = Map.empty"
  by (auto simp: len_def)

lemma Len_0_iff: "finite s \<Longrightarrow> Len s = 0 \<longleftrightarrow> s = {}"
  by (simp add: Len_def)

lemma Max_ids_lt: "finite s \<Longrightarrow> s \<noteq> {} \<Longrightarrow> Max_ids s < b \<longleftrightarrow> (\<forall>x\<in>s. x < b)"
  by (simp add: Max_ids_def)

text \<open>The linear scan returns the least unused id from its start on, and runs out only
  when every id up to \<open>maxInt\<close> is used.\<close>

lemma scan_unused_Some:
  "scan_unused used i = Some k \<Longrightarrow>
     i \<le> k \<and> k < maxInt \<and> k \<notin> used \<and> (\<forall>j. i \<le> j \<and> j < k \<longrightarrow> j \<in> used)"
proof (induction used i rule: scan_unused.induct)
  case (1 used i)
  show ?case
  proof (cases "i < maxInt \<and> i \<in> used")
    case True
    then have "scan_unused used (i + 1) = Some k"
      using "1.prems" by (simp add: scan_unused.simps[of used i])
    with True "1.IH"
    have ih: "i + 1 \<le> k \<and> k < maxInt \<and> k \<notin> used \<and> (\<forall>j. i + 1 \<le> j \<and> j < k \<longrightarrow> j \<in> used)"
      by simp
    have "\<And>j. i \<le> j \<Longrightarrow> j < k \<Longrightarrow> j \<in> used"
    proof -
      fix j assume "i \<le> j" "j < k"
      then show "j \<in> used" using ih True by (cases "j = i") auto
    qed
    then show ?thesis using ih by auto
  next
    case False
    then show ?thesis
      using "1.prems" by (auto simp: scan_unused.simps[of used i] split: if_splits)
  qed
qed

lemma scan_unused_None:
  "scan_unused used i = None \<Longrightarrow> \<forall>j. i \<le> j \<and> j < maxInt \<longrightarrow> j \<in> used"
proof (induction used i rule: scan_unused.induct)
  case (1 used i)
  show ?case
  proof (cases "i < maxInt")
    case True
    then have u: "i \<in> used" and n: "scan_unused used (i + 1) = None"
      using "1.prems" by (auto simp: scan_unused.simps[of used i] split: if_splits)
    with True "1.IH" have ih: "\<forall>j. i + 1 \<le> j \<and> j < maxInt \<longrightarrow> j \<in> used" by simp
    show ?thesis
    proof (intro allI impI)
      fix j assume "i \<le> j \<and> j < maxInt"
      then show "j \<in> used" using ih u by (cases "j = i") auto
    qed
  next
    case False
    then show ?thesis by auto
  qed
qed

text \<open>\<^verbatim>\<open>NewNodeID\<close> of the directed store, branch by branch.\<close>

lemma NewNodeID_d_empty: "nodes_d g = Map.empty \<Longrightarrow> NewNodeID_d g = Return 0 g"
  by (simp add: NewNodeID_d_def len_def)

lemma NewNodeID_d_noslot: "len (nodes_d g) = maxInt \<Longrightarrow> NewNodeID_d g = Panic NoSlot g"
  by (simp add: NewNodeID_d_def)

lemma NewNodeID_d_free:
  assumes "finite (freeIDs_d g)" "freeIDs_d g \<noteq> {}"
    "len (nodes_d g) \<noteq> 0" "len (nodes_d g) \<noteq> maxInt"
  shows "NewNodeID_d g =
    Return (Min (freeIDs_d g)) (g\<lparr>freeIDs_d := freeIDs_d g - {Min (freeIDs_d g)}\<rparr>)"
  using assms by (simp add: NewNodeID_d_def Len_0_iff TakeMin_def)

lemma NewNodeID_d_max:
  assumes "freeIDs_d g = {}" "len (nodes_d g) \<noteq> 0" "len (nodes_d g) \<noteq> maxInt"
    "Max_ids (usedIDs_d g) < maxInt"
  shows "NewNodeID_d g = Return (Max_ids (usedIDs_d g) + 1) g"
  using assms by (simp add: NewNodeID_d_def Len_def)

lemma NewNodeID_d_scan:
  assumes "freeIDs_d g = {}" "len (nodes_d g) \<noteq> 0" "len (nodes_d g) \<noteq> maxInt"
    "\<not> Max_ids (usedIDs_d g) < maxInt"
  shows "NewNodeID_d g =
    (case scan_unused (usedIDs_d g) 0 of Some i \<Rightarrow> Return i g | None \<Rightarrow> Panic Unreachable g)"
  using assms by (simp add: NewNodeID_d_def Len_def)

lemma NewNodeID_d_policy:
  assumes ok: "alloc_ok (nodes_d g) (freeIDs_d g) (usedIDs_d g)"
  shows "(nodes_d g = Map.empty \<longrightarrow> NewNodeID_d g = Return 0 g) \<and>
    (nodes_d g \<noteq> Map.empty \<and> len (nodes_d g) = maxInt \<longrightarrow> NewNodeID_d g = Panic NoSlot g) \<and>
    (nodes_d g \<noteq> Map.empty \<and> len (nodes_d g) \<noteq> maxInt \<and> freeIDs_d g \<noteq> {} \<longrightarrow>
       (\<exists>i. NewNodeID_d g = Return i (g\<lparr>freeIDs_d := freeIDs_d g - {i}\<rparr>) \<and>
            i \<in> freeIDs_d g \<and> (\<forall>x\<in>freeIDs_d g. i \<le> x))) \<and>
    (nodes_d g \<noteq> Map.empty \<and> len (nodes_d g) \<noteq> maxInt \<and> freeIDs_d g = {} \<and>
       (\<forall>x\<in>usedIDs_d g. x < maxInt) \<longrightarrow>
       (\<exists>m. NewNodeID_d g = Return (m + 1) g \<and> m \<in> usedIDs_d g \<and> (\<forall>x\<in>usedIDs_d g. x \<le> m))) \<and>
    (nodes_d g \<noteq> Map.empty \<and> len (nodes_d g) \<noteq> maxInt \<and> freeIDs_d g = {} \<and>
       \<not> (\<forall>x\<in>usedIDs_d g. x < maxInt) \<longrightarrow>
       (\<exists>i. NewNodeID_d g = Return i g \<and> 0 \<le> i \<and> i < maxInt \<and> i \<notin> usedIDs_d g \<and>
            (\<forall>j. 0 \<le> j \<and> j < i \<longrightarrow> j \<in> usedIDs_d g)) \<or>
       (NewNodeID_d g = Panic Unreachable g \<and> (\<forall>j. 0 \<le> j \<and> j < maxInt \<longrightarrow> j \<in> usedIDs_d g)))"
proof -
  have fin: "finite (dom (nodes_d g))" "finite (freeIDs_d g)" "finite (usedIDs_d g)"
    and used: "usedIDs_d g = dom (nodes_d g)"
    using ok by (auto simp: alloc_ok_def)
  have ne: "nodes_d g \<noteq> Map.empty \<Longrightarrow> len (nodes_d g) \<noteq> 0 \<and> usedIDs_d g \<noteq> {}"
    using fin used by (auto simp: len_0_iff)
  have c1: "nodes_d g = Map.empty \<longrightarrow> NewNodeID_d g = Return 0 g"
    by (simp add: NewNodeID_d_empty)
  have c2: "nodes_d g \<noteq> Map.empty \<and> len (nodes_d g) = maxInt \<longrightarrow> NewNodeID_d g = Panic NoSlot g"
    by (simp add: NewNodeID_d_noslot)
  have c3: "nodes_d g \<noteq> Map.empty \<and> len (nodes_d g) \<noteq> maxInt \<and> freeIDs_d g \<noteq> {} \<longrightarrow>
       (\<exists>i. NewNodeID_d g = Return i (g\<lparr>freeIDs_d := freeIDs_d g - {i}\<rparr>) \<and>
            i \<in> freeIDs_d g \<and> (\<forall>x\<in>freeIDs_d g. i \<le> x))"
    using ne fin(2) NewNodeID_d_free[of g] by (auto intro!: exI[of _ "Min (freeIDs_d g)"])
  have c4: "nodes_d g \<noteq> Map.empty \<and> len (nodes_d g) \<noteq> maxInt \<and> freeIDs_d g = {} \<and>
       (\<forall>x\<in>usedIDs_d g. x < maxInt) \<longrightarrow>
       (\<exists>m. NewNodeID_d g = Return (m + 1) g \<and> m \<in> usedIDs_d g \<and> (\<forall>x\<in>usedIDs_d g. x \<le> m))"
  proof (intro impI, elim conjE)
    assume a: "nodes_d g \<noteq> Map.empty" "len (nodes_d g) \<noteq> maxInt" "freeIDs_d g = {}"
      "\<forall>x\<in>usedIDs_d g. x < maxInt"
    have u: "usedIDs_d g \<noteq> {}" using ne a(1) by simp
    have m: "Max_ids (usedIDs_d g) = Max (usedIDs_d g)" using u by (simp add: Max_ids_def)
    have "Max_ids (usedIDs_d g) < maxInt" using Max_ids_lt[OF fin(3) u] a(4) by simp
    then have "NewNodeID_d g = Return (Max (usedIDs_d g) + 1) g"
      using NewNodeID_d_max[of g] a ne m by simp
    then show "\<exists>m. NewNodeID_d g = Return (m + 1) g \<and> m \<in> usedIDs_d g \<and> (\<forall>x\<in>usedIDs_d g. x \<le> m)"
      using fin(3) u by (intro exI[of _ "Max (usedIDs_d g)"]) simp
  qed
  have c5: "nodes_d g \<noteq> Map.empty \<and> len (nodes_d g) \<noteq> maxInt \<and> freeIDs_d g = {} \<and>
       \<not> (\<forall>x\<in>usedIDs_d g. x < maxInt) \<longrightarrow>
       (\<exists>i. NewNodeID_d g = Return i g \<and> 0 \<le> i \<and> i < maxInt \<and> i \<notin> usedIDs_d g \<and>
            (\<forall>j. 0 \<le> j \<and> j < i \<longrightarrow> j \<in> usedIDs_d g)) \<or>
       (NewNodeID_d g = Panic Unreachable g \<and> (\<forall>j. 0 \<le> j \<and> j < maxInt \<longrightarrow> j \<in> usedIDs_d g))"
  proof (intro impI, elim conjE)
    assume a: "nodes_d g \<noteq> Map.empty" "len (nodes_d g) \<noteq> maxInt" "freeIDs_d g = {}"
      "\<not> (\<forall>x\<in>usedIDs_d g. x < maxInt)"
    have u: "usedIDs_d g \<noteq> {}" using ne a(1) by simp
    have "\<not> Max_ids (usedIDs_d g) < maxInt" using Max_ids_lt[OF fin(3) u] a(4) by simp
    then have s: "NewNodeID_d g =
        (case scan_unused (usedIDs_d g) 0 of Some i \<Rightarrow> Return i g | None \<Rightarrow> Panic Unreachable g)"
      using NewNodeID_d_scan[of g] a ne by simp
    show "(\<exists>i. NewNodeID_d g = Return i g \<and> 0 \<le> i \<and> i < maxInt \<and> i \<notin> usedIDs_d g \<and>
            (\<forall>j. 0 \<le> j \<and> j < i \<longrightarrow> j \<in> usedIDs_d g)) \<or>
       (NewNodeID_d g = Panic Unreachable g \<and> (\<forall>j. 0 \<le> j \<and> j < maxInt \<longrightarrow> j \<in> usedIDs_d g))"
    proof (cases "scan_unused (usedIDs_d g) 0")
      case None
      then show ?thesis using s scan_unused_None[OF None] by simp
    next
      case (Some k)
      then show ?thesis using s scan_unused_Some[OF Some] by simp
    qed
  qed
  show ?thesis using c1 c2 c3 c4 c5 by blast
qed

text \<open>The same for the undirected store, whose \<^verbatim>\<open>NewNodeID\<close> has the same body.\<close>

lemma NewNodeID_u_empty: "nodes_u g = Map.empty \<Longrightarrow> NewNodeID_u g = Return 0 g"
  by (simp add: NewNodeID_u_def len_def)

lemma NewNodeID_u_noslot: "len (nodes_u g) = maxInt \<Longrightarrow> NewNodeID_u g = Panic NoSlot g"
  by (simp add: NewNodeID_u_def)

lemma NewNodeID_u_free:
  assumes "finite (freeIDs_u g)" "freeIDs_u g \<noteq> {}"
    "len (nodes_u g) \<noteq> 0" "len (nodes_u g) \<noteq> maxInt"
  shows "NewNodeID_u g =
    Return (Min (freeIDs_u g)) (g\<lparr>freeIDs_u := freeIDs_u g - {Min (freeIDs_u g)}\<rparr>)"
  using assms by (simp add: NewNodeID_u_def Len_0_iff TakeMin_def)

lemma NewNodeID_u_max:
  assumes "freeIDs_u g = {}" "len (nodes_u g) \<noteq> 0" "len (nodes_u g) \<noteq> maxInt"
    "Max_ids (usedIDs_u g) < maxInt"
  shows "NewNodeID_u g = Return (Max_ids (usedIDs_u g) + 1) g"
  using assms by (simp add: NewNodeID_u_def Len_def)

lemma NewNodeID_u_scan:
  assumes "freeIDs_u g = {}" "len (nodes_u g) \<noteq> 0" "len (nodes_u g) \<noteq> maxInt"
    "\<not> Max_ids (usedIDs_u g) < maxInt"
  shows "NewNodeID_u g =
    (case scan_unused (usedIDs_u g) 0 of Some i \<Rightarrow> Return i g | None \<Rightarrow> Panic Unreachable g)"
  using assms by (simp add: NewNodeID_u_def Len_def)

lemma NewNodeID_u_policy:
  assumes ok: "alloc_ok (nodes_u g) (freeIDs_u g) (usedIDs_u g)"
  shows "(nodes_u g = Map.empty \<longrightarrow> NewNodeID_u g = Return 0 g) \<and>
    (nodes_u g \<noteq> Map.empty \<and> len (nodes_u g) = maxInt \<longrightarrow> NewNodeID_u g = Panic NoSlot g) \<and>
    (nodes_u g \<noteq> Map.empty \<and> len (nodes_u g) \<noteq> maxInt \<and> freeIDs_u g \<noteq> {} \<longrightarrow>
       (\<exists>i. NewNodeID_u g = Return i (g\<lparr>freeIDs_u := freeIDs_u g - {i}\<rparr>) \<and>
            i \<in> freeIDs_u g \<and> (\<forall>x\<in>freeIDs_u g. i \<le> x))) \<and>
    (nodes_u g \<noteq> Map.empty \<and> len (nodes_u g) \<noteq> maxInt \<and> freeIDs_u g = {} \<and>
       (\<forall>x\<in>usedIDs_u g. x < maxInt) \<longrightarrow>
       (\<exists>m. NewNodeID_u g = Return (m + 1) g \<and> m \<in> usedIDs_u g \<and> (\<forall>x\<in>usedIDs_u g. x \<le> m))) \<and>
    (nodes_u g \<noteq> Map.empty \<and> len (nodes_u g) \<noteq> maxInt \<and> freeIDs_u g = {} \<and>
       \<not> (\<forall>x\<in>usedIDs_u g. x < maxInt) \<longrightarrow>
       (\<exists>i. NewNodeID_u g = Return i g \<and> 0 \<le> i \<and> i < maxInt \<and> i \<notin> usedIDs_u g \<and>
            (\<forall>j. 0 \<le> j \<and> j < i \<longrightarrow> j \<in> usedIDs_u g)) \<or>
       (NewNodeID_u g = Panic Unreachable g \<and> (\<forall>j. 0 \<le> j \<and> j < maxInt \<longrightarrow> j \<in> usedIDs_u g)))"
proof -
  have fin: "finite (dom (nodes_u g))" "finite (freeIDs_u g)" "finite (usedIDs_u g)"
    and used: "usedIDs_u g = dom (nodes_u g)"
    using ok by (auto simp: alloc_ok_def)
  have ne: "nodes_u g \<noteq> Map.empty \<Longrightarrow> len (nodes_u g) \<noteq> 0 \<and> usedIDs_u g \<noteq> {}"
    using fin used by (auto simp: len_0_iff)
  have c1: "nodes_u g = Map.empty \<longrightarrow> NewNodeID_u g = Return 0 g"
    by (simp add: NewNodeID_u_empty)
  have c2: "nodes_u g \<noteq> Map.empty \<and> len (nodes_u g) = maxInt \<longrightarrow> NewNodeID_u g = Panic NoSlot g"
    by (simp add: NewNodeID_u_noslot)
  have c3: "nodes_u g \<noteq> Map.empty \<and> len (nodes_u g) \<noteq> maxInt \<and> freeIDs_u g \<noteq> {} \<longrightarrow>
       (\<exists>i. NewNodeID_u g = Return i (g\<lparr>freeIDs_u := freeIDs_u g - {i}\<rparr>) \<and>
            i \<in> freeIDs_u g \<and> (\<forall>x\<in>freeIDs_u g. i \<le> x))"
    using ne fin(2) NewNodeID_u_free[of g] by (auto intro!: exI[of _ "Min (freeIDs_u g)"])
  have c4: "nodes_u g \<noteq> Map.empty \<and> len (nodes_u g) \<noteq> maxInt \<and> freeIDs_u g = {} \<and>
       (\<forall>x\<in>usedIDs_u g. x < maxInt) \<longrightarrow>
       (\<exists>m. NewNodeID_u g = Return (m + 1) g \<and> m \<in> usedIDs_u g \<and> (\<forall>x\<in>usedIDs_u g. x \<le> m))"
  proof (intro impI, elim conjE)
    assume a: "nodes_u g \<noteq> Map.empty" "len (nodes_u g) \<noteq> maxInt" "freeIDs_u g = {}"
      "\<forall>x\<in>usedIDs_u g. x < maxInt"
    have u: "usedIDs_u g \<noteq> {}" using ne a(1) by simp
    have m: "Max_ids (usedIDs_u g) = Max (usedIDs_u g)" using u by (simp add: Max_ids_def)
    have "Max_ids (usedIDs_u g) < maxInt" using Max_ids_lt[OF fin(3) u] a(4) by simp
    then have "NewNodeID_u g = Return (Max (usedIDs_u g) + 1) g"
      using NewNodeID_u_max[of g] a ne m by simp
    then show "\<exists>m. NewNodeID_u g = Return (m + 1) g \<and> m \<in> usedIDs_u g \<and> (\<forall>x\<in>usedIDs_u g. x \<le> m)"
      using fin(3) u by (intro exI[of _ "Max (usedIDs_u g)"]) simp
  qed
  have c5: "nodes_u g \<noteq> Map.empty \<and> len (nodes_u g) \<noteq> maxInt \<and> freeIDs_u g = {} \<and>
       \<not> (\<forall>x\<in>usedIDs_u g. x < maxInt) \<longrightarrow>
       (\<exists>i. NewNodeID_u g = Return i g \<and> 0 \<le> i \<and> i < maxInt \<and> i \<notin> usedIDs_u g \<and>
            (\<forall>j. 0 \<le> j \<and> j < i \<longrightarrow> j \<in> usedIDs_u g)) \<or>
       (NewNodeID_u g = Panic Unreachable g \<and> (\<forall>j. 0 \<le> j \<and> j < maxInt \<longrightarrow> j \<in> usedIDs_u g))"
  proof (intro impI, elim conjE)
    assume a: "nodes_u g \<noteq> Map.empty" "len (nodes_u g) \<noteq> maxInt" "freeIDs_u g = {}"
      "\<not> (\<forall>x\<in>usedIDs_u g. x < maxInt)"
    have u: "usedIDs_u g \<noteq> {}" using ne a(1) by simp
    have "\<not> Max_ids (usedIDs_u g) < maxInt" using Max_ids_lt[OF fin(3) u] a(4) by simp
    then have s: "NewNodeID_u g =
        (case scan_unused (usedIDs_u g) 0 of Some i \<Rightarrow> Return i g | None \<Rightarrow> Panic Unreachable g)"
      using NewNodeID_u_scan[of g] a ne by simp
    show "(\<exists>i. NewNodeID_u g = Return i g \<and> 0 \<le> i \<and> i < maxInt \<and> i \<notin> usedIDs_u g \<and>
            (\<forall>j. 0 \<le> j \<and> j < i \<longrightarrow> j \<in> usedIDs_u g)) \<or>
       (NewNodeID_u g = Panic Unreachable g \<and> (\<forall>j. 0 \<le> j \<and> j < maxInt \<longrightarrow> j \<in> usedIDs_u g))"
    proof (cases "scan_unused (usedIDs_u g) 0")
      case None
      then show ?thesis using s scan_unused_None[OF None] by simp
    next
      case (Some k)
      then show ?thesis using s scan_unused_Some[OF Some] by simp
    qed
  qed
  show ?thesis using c1 c2 c3 c4 c5 by blast
qed


text \<open>Every method keeps the allocator's sets finite and the used ids the ids of the
  nodes, so every state reached from the empty graph is such an allocator state.\<close>

lemma alloc_ok_New:
  "alloc_ok (nodes_d (NewDirectedGraph s a)) (freeIDs_d (NewDirectedGraph s a))
            (usedIDs_d (NewDirectedGraph s a))"
  "alloc_ok (nodes_u (NewUndirectedGraph s a)) (freeIDs_u (NewUndirectedGraph s a))
            (usedIDs_u (NewUndirectedGraph s a))"
  by (simp_all add: alloc_ok_def NewDirectedGraph_def NewUndirectedGraph_def)

lemma alloc_ok_AddNode_d:
  "alloc_ok (nodes_d g) (freeIDs_d g) (usedIDs_d g) \<Longrightarrow>
   alloc_ok (nodes_d (state_of (AddNode_d g n))) (freeIDs_d (state_of (AddNode_d g n)))
            (usedIDs_d (state_of (AddNode_d g n)))"
  by (auto simp: alloc_ok_def AddNode_d_def)

lemma alloc_ok_RemoveNode_d:
  "alloc_ok (nodes_d g) (freeIDs_d g) (usedIDs_d g) \<Longrightarrow>
   alloc_ok (nodes_d (RemoveNode_d g i)) (freeIDs_d (RemoveNode_d g i)) (usedIDs_d (RemoveNode_d g i))"
  by (auto simp: alloc_ok_def RemoveNode_d_def Let_def)

lemma alloc_ok_AddNode_u:
  "alloc_ok (nodes_u g) (freeIDs_u g) (usedIDs_u g) \<Longrightarrow>
   alloc_ok (nodes_u (state_of (AddNode_u g n))) (freeIDs_u (state_of (AddNode_u g n)))
            (usedIDs_u (state_of (AddNode_u g n)))"
  by (auto simp: alloc_ok_def AddNode_u_def)

lemma alloc_ok_RemoveNode_u:
  "alloc_ok (nodes_u g) (freeIDs_u g) (usedIDs_u g) \<Longrightarrow>
   alloc_ok (nodes_u (RemoveNode_u g i)) (freeIDs_u (RemoveNode_u g i)) (usedIDs_u (RemoveNode_u g i))"
  by (auto simp: alloc_ok_def RemoveNode_u_def Let_def)

lemma alloc_ok_SetEdge_d:
  "alloc_ok (nodes_d g) (freeIDs_d g) (usedIDs_d g) \<Longrightarrow>
   alloc_ok (nodes_d (state_of (SetEdge_d g e))) (freeIDs_d (state_of (SetEdge_d g e)))
            (usedIDs_d (state_of (SetEdge_d g e)))"
  by (auto simp: alloc_ok_def SetEdge_d_def Let_def AddNode_d_def Has_d_def split: option.splits)

lemma alloc_ok_SetEdge_u:
  "alloc_ok (nodes_u g) (freeIDs_u g) (usedIDs_u g) \<Longrightarrow>
   alloc_ok (nodes_u (state_of (SetEdge_u g e))) (freeIDs_u (state_of (SetEdge_u g e)))
            (usedIDs_u (state_of (SetEdge_u g e)))"
  by (auto simp: alloc_ok_def SetEdge_u_def Let_def AddNode_u_def Has_u_def split: option.splits)

lemma alloc_ok_RemoveEdge:
  "alloc_ok (nodes_d gd) (freeIDs_d gd) (usedIDs_d gd) \<Longrightarrow>
   alloc_ok (nodes_d (RemoveEdge_d gd e)) (freeIDs_d (RemoveEdge_d gd e)) (usedIDs_d (RemoveEdge_d gd e))"
  "alloc_ok (nodes_u gu) (freeIDs_u gu) (usedIDs_u gu) \<Longrightarrow>
   alloc_ok (nodes_u (RemoveEdge_u gu e)) (freeIDs_u (RemoveEdge_u gu e)) (usedIDs_u (RemoveEdge_u gu e))"
  by (simp_all add: RemoveEdge_d_def RemoveEdge_u_def Let_def)

lemma alloc_ok_NewNodeID:
  "alloc_ok (nodes_d gd) (freeIDs_d gd) (usedIDs_d gd) \<Longrightarrow>
   alloc_ok (nodes_d (state_of (NewNodeID_d gd))) (freeIDs_d (state_of (NewNodeID_d gd)))
            (usedIDs_d (state_of (NewNodeID_d gd)))"
  "alloc_ok (nodes_u gu) (freeIDs_u gu) (usedIDs_u gu) \<Longrightarrow>
   alloc_ok (nodes_u (state_of (NewNodeID_u gu))) (freeIDs_u (state_of (NewNodeID_u gu)))
            (usedIDs_u (state_of (NewNodeID_u gu)))"
  by (auto simp: alloc_ok_def NewNodeID_d_def NewNodeID_u_def TakeMin_def split: option.splits if_splits)

lemma alloc_ok_run_d:
  "alloc_ok (nodes_d (run_d (NewDirectedGraph s a) ops)) (freeIDs_d (run_d (NewDirectedGraph s a) ops))
            (usedIDs_d (run_d (NewDirectedGraph s a) ops))"
proof -
  have step: "\<And>g x. alloc_ok (nodes_d g) (freeIDs_d g) (usedIDs_d g) \<Longrightarrow>
      alloc_ok (nodes_d (step_d g x)) (freeIDs_d (step_d g x)) (usedIDs_d (step_d g x))"
    subgoal for g x
      by (cases x)
         (simp_all add: alloc_ok_AddNode_d alloc_ok_RemoveNode_d alloc_ok_SetEdge_d
            alloc_ok_RemoveEdge alloc_ok_NewNodeID)
    done
  have "\<And>g. alloc_ok (nodes_d g) (freeIDs_d g) (usedIDs_d g) \<Longrightarrow>
      alloc_ok (nodes_d (foldl step_d g ops)) (freeIDs_d (foldl step_d g ops)) (usedIDs_d (foldl step_d g ops))"
    by (induction ops) (simp_all add: step)
  then show ?thesis unfolding run_d_def using alloc_ok_New(1) by blast
qed

lemma alloc_ok_run_u:
  "alloc_ok (nodes_u (run_u (NewUndirectedGraph s a) ops)) (freeIDs_u (run_u (NewUndirectedGraph s a) ops))
            (usedIDs_u (run_u (NewUndirectedGraph s a) ops))"
proof -
  have step: "\<And>g x. alloc_ok (nodes_u g) (freeIDs_u g) (usedIDs_u g) \<Longrightarrow>
      alloc_ok (nodes_u (step_u g x)) (freeIDs_u (step_u g x)) (usedIDs_u (step_u g x))"
    subgoal for g x
      by (cases x)
         (simp_all add: alloc_ok_AddNode_u alloc_ok_RemoveNode_u alloc_ok_SetEdge_u
            alloc_ok_RemoveEdge alloc_ok_NewNodeID)
    done
  have "\<And>g. alloc_ok (nodes_u g) (freeIDs_u g) (usedIDs_u g) \<Longrightarrow>
      alloc_ok (nodes_u (foldl step_u g ops)) (freeIDs_u (foldl step_u g ops)) (usedIDs_u (foldl step_u g ops))"
    by (induction ops) (simp_all add: step)
  then show ?thesis unfolding run_u_def using alloc_ok_New(2) by blast
qed

text \<open>
  Claim C6, as the spec states it, fails: \<^verbatim>\<open>NewNodeID\<close> first tests \<^verbatim>\<open>len(g.nodes) == 0\<close> and
  returns 0 without looking at the free set. After \<^verbatim>\<open>AddNode\<close> of a node with id 5 and
  \<^verbatim>\<open>RemoveNode(5)\<close> the free set is \<open>{5}\<close>, not empty, and \<^verbatim>\<open>NewNodeID\<close> returns 0, not 5,
  and leaves the free set as it is.
\<close>

theorem NewNodeID_policy_counterexample:
  "freeIDs_d (run_d (NewDirectedGraph (Num 0) (Num 0)) [OpAddNode (Node 5), OpRemoveNode 5]) = {5} \<and>
   NewNodeID_d (run_d (NewDirectedGraph (Num 0) (Num 0)) [OpAddNode (Node 5), OpRemoveNode 5]) =
     Return 0 (run_d (NewDirectedGraph (Num 0) (Num 0)) [OpAddNode (Node 5), OpRemoveNode 5])"
  by (simp add: run_d_def NewDirectedGraph_def AddNode_d_def RemoveNode_d_def Let_def
        NewNodeID_d_def len_def)

text \<open>
  Claim C6, amended. For both sparse stores and every allocator state (finite id sets, the
  used ids being the ids of the nodes), \<^verbatim>\<open>NewNodeID\<close>
  \<^item> returns 0 and changes nothing when the store holds no node, whatever the free set;
  \<^item> otherwise panics ("no slot") when the store holds \<open>maxInt\<close> nodes;
  \<^item> otherwise, when the free set is not empty, returns its smallest id and removes it
    from the free set;
  \<^item> otherwise, when every used id is below \<open>maxInt\<close>, returns one past the greatest used
    id and changes nothing;
  \<^item> otherwise returns the first id from 0 up that is not used, changing nothing, or
    panics ("unreachable") when every id from 0 up to \<open>maxInt\<close> is used.
\<close>

theorem NewNodeID_policy:
  assumes "alloc_ok (nodes_d gd) (freeIDs_d gd) (usedIDs_d gd)"
    and "alloc_ok (nodes_u gu) (freeIDs_u gu) (usedIDs_u gu)"
  shows "((nodes_d gd = Map.empty \<longrightarrow> NewNodeID_d gd = Return 0 gd) \<and>
    (nodes_d gd \<noteq> Map.empty \<and> len (nodes_d gd) = maxInt \<longrightarrow> NewNodeID_d gd = Panic NoSlot gd) \<and>
    (nodes_d gd \<noteq> Map.empty \<and> len (nodes_d gd) \<noteq> maxInt \<and> freeIDs_d gd \<noteq> {} \<longrightarrow>
       (\<exists>i. NewNodeID_d gd = Return i (gd\<lparr>freeIDs_d := freeIDs_d gd - {i}\<rparr>) \<and>
            i \<in> freeIDs_d gd \<and> (\<forall>x\<in>freeIDs_d gd. i \<le> x))) \<and>
    (nodes_d gd \<noteq> Map.empty \<and> len (nodes_d gd) \<noteq> maxInt \<and> freeIDs_d gd = {} \<and>
       (\<forall>x\<in>usedIDs_d gd. x < maxInt) \<longrightarrow>
       (\<exists>m. NewNodeID_d gd = Return (m + 1) gd \<and> m \<in> usedIDs_d gd \<and> (\<forall>x\<in>usedIDs_d gd. x \<le> m))) \<and>
    (nodes_d gd \<noteq> Map.empty \<and> len (nodes_d gd) \<noteq> maxInt \<and> freeIDs_d gd = {} \<and>
       \<not> (\<forall>x\<in>usedIDs_d gd. x < maxInt) \<longrightarrow>
       (\<exists>i. NewNodeID_d gd = Return i gd \<and> 0 \<le> i \<and> i < maxInt \<and> i \<notin> usedIDs_d gd \<and>
            (\<forall>j. 0 \<le> j \<and> j < i \<longrightarrow> j \<in> usedIDs_d gd)) \<or>
       (NewNodeID_d gd = Panic Unreachable gd \<and> (\<forall>j. 0 \<le> j \<and> j < maxInt \<longrightarrow> j \<in> usedIDs_d gd)))) \<and>
   ((nodes_u gu = Map.empty \<longrightarrow> NewNodeID_u gu = Return 0 gu) \<and>
    (nodes_u gu \<noteq> Map.empty \<and> len (nodes_u gu) = maxInt \<longrightarrow> NewNodeID_u gu = Panic NoSlot gu) \<and>
    (nodes_u gu \<noteq> Map.empty \<and> len (nodes_u gu) \<noteq> maxInt \<and> freeIDs_u gu \<noteq> {} \<longrightarrow>
       (\<exists>i. NewNodeID_u gu = Return i (gu\<lparr>freeIDs_u := freeIDs_u gu - {i}\<rparr>) \<and>
            i \<in> freeIDs_u gu \<and> (\<forall>x\<in>freeIDs_u gu. i \<le> x))) \<and>
    (nodes_u gu \<noteq> Map.empty \<and> len (nodes_u gu) \<noteq> maxInt \<and> freeIDs_u gu = {} \<and>
       (\<forall>x\<in>usedIDs_u gu. x < maxInt) \<longrightarrow>
       (\<exists>m. NewNodeID_u gu = Return (m + 1) gu \<and> m \<in> usedIDs_u gu \<and> (\<forall>x\<in>usedIDs_u gu. x \<le> m))) \<and>
    (nodes_u gu \<noteq> Map.empty \<and> len (nodes_u gu) \<noteq> maxInt \<and> freeIDs_u gu = {} \<and>
       \<not> (\<forall>x\<in>usedIDs_u gu. x < maxInt) \<longrightarrow>
       (\<exists>i. NewNodeID_u gu = Return i gu \<and> 0 \<le> i \<and> i < maxInt \<and> i \<notin> usedIDs_u gu \<and>
            (\<forall>j. 0 \<le> j \<and> j < i \<longrightarrow> j \<in> usedIDs_u gu)) \<or>
       (NewNodeID_u gu = Panic Unreachable gu \<and> (\<forall>j. 0 \<le> j \<and> j < maxInt \<longrightarrow> j \<in> usedIDs_u gu))))"
  using NewNodeID_d_policy[OF assms(1)] NewNodeID_u_policy[OF assms(2)] by (rule conjI)

theorem NewNodeID_policy_witness:
  "(\<exists>i. NewNodeID_d (run_d (NewDirectedGraph (Num 0) (Num 0))
            [OpAddNode (Node 0), OpAddNode (Node 1), OpAddNode (Node 2), OpRemoveNode 1]) =
          Return i ((run_d (NewDirectedGraph (Num 0) (Num 0))
            [OpAddNode (Node 0), OpAddNode (Node 1), OpAddNode (Node 2), OpRemoveNode 1])
              \<lparr>freeIDs_d := {1} - {i}\<rparr>) \<and> i \<in> {1::int}) \<and>
   (\<exists>m. NewNodeID_u (run_u (NewUndirectedGraph (Num 0) (Num 0)) [OpAddNode (Node 0)]) =
          Return (m + 1) (run_u (NewUndirectedGraph (Num 0) (Num 0)) [OpAddNode (Node 0)]) \<and>
        m \<in> {0::int}) \<and>
   (\<exists>i. NewNodeID_d (run_d (NewDirectedGraph (Num 0) (Num 0)) [OpAddNode (Node maxInt)]) =
          Return i (run_d (NewDirectedGraph (Num 0) (Num 0)) [OpAddNode (Node maxInt)]) \<and>
        0 \<le> i \<and> i < maxInt \<and> i \<noteq> maxInt) \<and>
   NewNodeID_u (NewUndirectedGraph (Num 0) (Num 0)) = Return 0 (NewUndirectedGraph (Num 0) (Num 0))"
proof -
  let ?d3 = "run_d (NewDirectedGraph (Num 0) (Num 0))
            [OpAddNode (Node 0), OpAddNode (Node 1), OpAddNode (Node 2), OpRemoveNode 1]"
  let ?u4 = "run_u (NewUndirectedGraph (Num 0) (Num 0)) [OpAddNode (Node 0)]"
  let ?d5 = "run_d (NewDirectedGraph (Num 0) (Num 0)) [OpAddNode (Node maxInt)]"
  let ?u1 = "NewUndirectedGraph (Num 0) (Num 0)"
  have d3: "nodes_d ?d3 = [0 \<mapsto> Node 0, 2 \<mapsto> Node 2]" "freeIDs_d ?d3 = {1}" "usedIDs_d ?d3 = {0, 2}"
    by (auto simp: run_d_def NewDirectedGraph_def AddNode_d_def RemoveNode_d_def Let_def)
  have u4: "nodes_u ?u4 = [0 \<mapsto> Node 0]" "freeIDs_u ?u4 = {}" "usedIDs_u ?u4 = {0}"
    by (auto simp: run_u_def NewUndirectedGraph_def AddNode_u_def)
  have d5: "nodes_d ?d5 = [maxInt \<mapsto> Node maxInt]" "freeIDs_d ?d5 = {}" "usedIDs_d ?d5 = {maxInt}"
    by (auto simp: run_d_def NewDirectedGraph_def AddNode_d_def)
  have u1: "nodes_u ?u1 = Map.empty" "freeIDs_u ?u1 = {}" "usedIDs_u ?u1 = {}"
    by (auto simp: NewUndirectedGraph_def)
  have ok: "alloc_ok (nodes_d ?d3) (freeIDs_d ?d3) (usedIDs_d ?d3)"
    "alloc_ok (nodes_u ?u4) (freeIDs_u ?u4) (usedIDs_u ?u4)"
    "alloc_ok (nodes_d ?d5) (freeIDs_d ?d5) (usedIDs_d ?d5)"
    "alloc_ok (nodes_u ?u1) (freeIDs_u ?u1) (usedIDs_u ?u1)"
    unfolding d3 u4 d5 u1 by (auto simp: alloc_ok_def)
  have l: "len (nodes_d ?d3) = 2" "len (nodes_u ?u4) = 1" "len (nodes_d ?d5) = 1"
    unfolding d3 u4 d5 by (simp_all add: len_def)
  have n: "nodes_d ?d3 \<noteq> Map.empty" "nodes_u ?u4 \<noteq> Map.empty" "nodes_d ?d5 \<noteq> Map.empty"
    unfolding d3 u4 d5 by simp_all
  note A = NewNodeID_policy[OF ok(1) ok(2)]
  note B = NewNodeID_policy[OF ok(3) ok(4)]
  have a3: "\<exists>i. NewNodeID_d ?d3 = Return i (?d3\<lparr>freeIDs_d := freeIDs_d ?d3 - {i}\<rparr>) \<and>
            i \<in> freeIDs_d ?d3 \<and> (\<forall>x\<in>freeIDs_d ?d3. i \<le> x)"
    using A n(1) l(1) d3(2) by simp
  have a4: "\<exists>m. NewNodeID_u ?u4 = Return (m + 1) ?u4 \<and> m \<in> usedIDs_u ?u4 \<and> (\<forall>x\<in>usedIDs_u ?u4. x \<le> m)"
    using A n(2) l(2) u4(2,3) by simp
  have "(\<exists>i. NewNodeID_d ?d5 = Return i ?d5 \<and> 0 \<le> i \<and> i < maxInt \<and> i \<notin> usedIDs_d ?d5 \<and>
            (\<forall>j. 0 \<le> j \<and> j < i \<longrightarrow> j \<in> usedIDs_d ?d5)) \<or>
       (NewNodeID_d ?d5 = Panic Unreachable ?d5 \<and> (\<forall>j. 0 \<le> j \<and> j < maxInt \<longrightarrow> j \<in> usedIDs_d ?d5))"
    using B n(3) l(3) d5(2,3) by simp
  moreover have "\<not> (\<forall>j. 0 \<le> j \<and> j < maxInt \<longrightarrow> j \<in> usedIDs_d ?d5)"
    unfolding d5 by (auto intro: exI[of _ 0])
  ultimately have a5: "\<exists>i. NewNodeID_d ?d5 = Return i ?d5 \<and> 0 \<le> i \<and> i < maxInt \<and> i \<notin> usedIDs_d ?d5"
    by blast
  have a1: "NewNodeID_u ?u1 = Return 0 ?u1"
    using B u1(1) by simp
  show ?thesis using a3 a4 a5 a1 unfolding d3(2) u4(3) d5(3) by auto
qed

text \<open>
  Claim C9. For both sparse stores: after adding nodes with the ids 0, 1 and 2 (whatever
  else the nodes carry) to the empty graph and removing node 1, \<^verbatim>\<open>NewNodeID\<close> returns 1, the
  id set free, and not 3.
\<close>

theorem id_reuse:
  "(\<exists>g'. NewNodeID_d (run_d (NewDirectedGraph s a)
       [OpAddNode (MkNode 0 p0), OpAddNode (MkNode 1 p1), OpAddNode (MkNode 2 p2), OpRemoveNode 1])
       = Return 1 g') \<and>
   (\<exists>g'. NewNodeID_u (run_u (NewUndirectedGraph s a)
       [OpAddNode (MkNode 0 p0), OpAddNode (MkNode 1 p1), OpAddNode (MkNode 2 p2), OpRemoveNode 1])
       = Return 1 g')"
  by (simp add: run_d_def run_u_def NewDirectedGraph_def NewUndirectedGraph_def
        AddNode_d_def AddNode_u_def RemoveNode_d_def RemoveNode_u_def
        NewNodeID_d_def NewNodeID_u_def Let_def len_def Len_def TakeMin_def keys_def)

text \<open>
  Claim C10. For both sparse stores, \<^verbatim>\<open>NewNodeID\<close> writes the store: whenever it draws the id
  from the free set (the store holds a node, fewer than \<open>maxInt\<close> of them, and the free set is
  not empty), the id it returns was in the free set and is not in it afterwards. So after
  adding nodes 0, 1, 2 and removing nodes 0 and 1, two \<^verbatim>\<open>NewNodeID\<close> calls in a row return 0
  and then 1.
\<close>

theorem NewNodeID_takes_from_free_set:
  "(finite (freeIDs_d gd) \<and> freeIDs_d gd \<noteq> {} \<and> len (nodes_d gd) \<noteq> 0 \<and> len (nodes_d gd) \<noteq> maxInt
      \<longrightarrow> (\<exists>i g'. NewNodeID_d gd = Return i g' \<and> i \<in> freeIDs_d gd \<and>
                  freeIDs_d g' = freeIDs_d gd - {i} \<and> i \<notin> freeIDs_d g')) \<and>
   (finite (freeIDs_u gu) \<and> freeIDs_u gu \<noteq> {} \<and> len (nodes_u gu) \<noteq> 0 \<and> len (nodes_u gu) \<noteq> maxInt
      \<longrightarrow> (\<exists>i g'. NewNodeID_u gu = Return i g' \<and> i \<in> freeIDs_u gu \<and>
                  freeIDs_u g' = freeIDs_u gu - {i} \<and> i \<notin> freeIDs_u g')) \<and>
   (\<exists>g1 g2. NewNodeID_d (run_d (NewDirectedGraph s a)
        [OpAddNode (MkNode 0 p0), OpAddNode (MkNode 1 p1), OpAddNode (MkNode 2 p2),
         OpRemoveNode 0, OpRemoveNode 1]) = Return 0 g1 \<and>
      NewNodeID_d g1 = Return 1 g2) \<and>
   (\<exists>g1 g2. NewNodeID_u (run_u (NewUndirectedGraph s a)
        [OpAddNode (MkNode 0 p0), OpAddNode (MkNode 1 p1), OpAddNode (MkNode 2 p2),
         OpRemoveNode 0, OpRemoveNode 1]) = Return 0 g1 \<and>
      NewNodeID_u g1 = Return 1 g2)"
proof -
  have d: "finite (freeIDs_d gd) \<and> freeIDs_d gd \<noteq> {} \<and> len (nodes_d gd) \<noteq> 0 \<and> len (nodes_d gd) \<noteq> maxInt
      \<longrightarrow> (\<exists>i g'. NewNodeID_d gd = Return i g' \<and> i \<in> freeIDs_d gd \<and>
                  freeIDs_d g' = freeIDs_d gd - {i} \<and> i \<notin> freeIDs_d g')"
    using NewNodeID_d_free[of gd] by auto
  have u: "finite (freeIDs_u gu) \<and> freeIDs_u gu \<noteq> {} \<and> len (nodes_u gu) \<noteq> 0 \<and> len (nodes_u gu) \<noteq> maxInt
      \<longrightarrow> (\<exists>i g'. NewNodeID_u gu = Return i g' \<and> i \<in> freeIDs_u gu \<and>
                  freeIDs_u g' = freeIDs_u gu - {i} \<and> i \<notin> freeIDs_u g')"
    using NewNodeID_u_free[of gu] by auto
  have rd: "\<exists>g1 g2. NewNodeID_d (run_d (NewDirectedGraph s a)
        [OpAddNode (MkNode 0 p0), OpAddNode (MkNode 1 p1), OpAddNode (MkNode 2 p2),
         OpRemoveNode 0, OpRemoveNode 1]) = Return 0 g1 \<and>
      NewNodeID_d g1 = Return 1 g2"
    by (simp add: run_d_def NewDirectedGraph_def AddNode_d_def RemoveNode_d_def
          NewNodeID_d_def Let_def len_def Len_def TakeMin_def keys_def insert_Diff_if)
  have ru: "\<exists>g1 g2. NewNodeID_u (run_u (NewUndirectedGraph s a)
        [OpAddNode (MkNode 0 p0), OpAddNode (MkNode 1 p1), OpAddNode (MkNode 2 p2),
         OpRemoveNode 0, OpRemoveNode 1]) = Return 0 g1 \<and>
      NewNodeID_u g1 = Return 1 g2"
    by (simp add: run_u_def NewUndirectedGraph_def AddNode_u_def RemoveNode_u_def
          NewNodeID_u_def Let_def len_def Len_def TakeMin_def keys_def insert_Diff_if)
  show ?thesis using d u rd ru by blast
qed

theorem NewNodeID_takes_from_free_set_witness:
  "(\<exists>i g'. NewNodeID_d (run_d (NewDirectedGraph (Num 0) (Num 0))
        [OpAddNode (Node 0), OpAddNode (Node 1), OpAddNode (Node 2), OpRemoveNode 0, OpRemoveNode 1])
        = Return i g' \<and> i \<in> {0, 1::int} \<and> freeIDs_d g' = {0, 1} - {i} \<and> i \<notin> freeIDs_d g') \<and>
   (\<exists>i g'. NewNodeID_u (run_u (NewUndirectedGraph (Num 0) (Num 0))
        [OpAddNode (Node 0), OpAddNode (Node 1), OpAddNode (Node 2), OpRemoveNode 0, OpRemoveNode 1])
        = Return i g' \<and> i \<in> {0, 1::int} \<and> freeIDs_u g' = {0, 1} - {i} \<and> i \<notin> freeIDs_u g')"
proof -
  let ?d = "run_d (NewDirectedGraph (Num 0) (Num 0))
        [OpAddNode (Node 0), OpAddNode (Node 1), OpAddNode (Node 2), OpRemoveNode 0, OpRemoveNode 1]"
  let ?u = "run_u (NewUndirectedGraph (Num 0) (Num 0))
        [OpAddNode (Node 0), OpAddNode (Node 1), OpAddNode (Node 2), OpRemoveNode 0, OpRemoveNode 1]"
  have d: "nodes_d ?d = [2 \<mapsto> Node 2]" "freeIDs_d ?d = {0, 1}"
    by (auto simp: run_d_def NewDirectedGraph_def AddNode_d_def RemoveNode_d_def Let_def)
  have u: "nodes_u ?u = [2 \<mapsto> Node 2]" "freeIDs_u ?u = {0, 1}"
    by (auto simp: run_u_def NewUndirectedGraph_def AddNode_u_def RemoveNode_u_def Let_def)
  have hd: "finite (freeIDs_d ?d) \<and> freeIDs_d ?d \<noteq> {} \<and> len (nodes_d ?d) \<noteq> 0 \<and> len (nodes_d ?d) \<noteq> maxInt"
    unfolding d by (simp add: len_def)
  have hu: "finite (freeIDs_u ?u) \<and> freeIDs_u ?u \<noteq> {} \<and> len (nodes_u ?u) \<noteq> 0 \<and> len (nodes_u ?u) \<noteq> maxInt"
    unfolding u by (simp add: len_def)
  note T = NewNodeID_takes_from_free_set[of ?d ?u "Num 0" "Num 0" 0 0 0]
  have "\<exists>i g'. NewNodeID_d ?d = Return i g' \<and> i \<in> freeIDs_d ?d \<and>
                  freeIDs_d g' = freeIDs_d ?d - {i} \<and> i \<notin> freeIDs_d g'"
    using T hd by blast
  moreover have "\<exists>i g'. NewNodeID_u ?u = Return i g' \<and> i \<in> freeIDs_u ?u \<and>
                  freeIDs_u g' = freeIDs_u ?u - {i} \<and> i \<notin> freeIDs_u g'"
    using T hu by blast
  ultimately show ?thesis unfolding d(2) u(2) by blast
qed

section \<open>Self loops\<close>

text \<open>
  Claim C5. For each of the three stores and every edge whose two ends have the same id,
  \<^verbatim>\<open>SetEdge\<close> panics, and the state the panic leaves is the state the call started from: no
  node was added, no map entry and no cell written.
\<close>

theorem self_loop_rejected:
  "ID (edge_From e) = ID (edge_To e) \<Longrightarrow>
     SetEdge_d gd e = Panic AddingSelfEdge gd \<and>
     SetEdge_u gu e = Panic AddingSelfEdge gu \<and>
     SetEdge_m h gm e = Panic SetIllegalEdge h"
  by (simp add: SetEdge_d_def SetEdge_u_def SetEdge_m_def)

theorem self_loop_rejected_witness:
  "SetEdge_d (NewDirectedGraph (Num 0) (Num 1)) (Edge (MkNode 3 0) (MkNode 3 1) (Num 2)) =
     Panic AddingSelfEdge (NewDirectedGraph (Num 0) (Num 1)) \<and>
   SetEdge_u (NewUndirectedGraph (Num 0) (Num 1)) (Edge (MkNode 3 0) (MkNode 3 1) (Num 2)) =
     Panic AddingSelfEdge (NewUndirectedGraph (Num 0) (Num 1)) \<and>
   SetEdge_m [[Num 0, Num 0, Num 0, Num 0]]
     \<lparr>mat_m = \<lparr>Rows = 2, Cols = 2, Stride = 2, Data = 0\<rparr>, nodes_m = None,
       self_m = Num 0, absent_m = Num (- 1)\<rparr>
     (Edge (MkNode 3 0) (MkNode 3 1) (Num 2)) = Panic SetIllegalEdge [[Num 0, Num 0, Num 0, Num 0]]"
proof -
  have h: "ID (edge_From (Edge (MkNode 3 0) (MkNode 3 1) (Num 2))) =
           ID (edge_To (Edge (MkNode 3 0) (MkNode 3 1) (Num 2)))"
    by simp
  show ?thesis by (rule self_loop_rejected[OF h])
qed

section \<open>The dense store\<close>

lemma deref_append [simp]: "deref (h0 @ [xs]) (length h0) = xs"
  by (simp add: deref_def)

lemma fill_diag_4: "fill_diag (replicate 16 (Num 0)) 4 (Num 0) 0 = Some (Inr (replicate 16 (Num 0)))"
  by (simp add: fill_diag.simps eval_nat_numeral)

lemma New_4:
  "NewDirectedMatrix h0 4 (Num 0) (Num 0) (Num (- 1)) =
     Some (Return \<lparr>mat_m = \<lparr>Rows = 4, Cols = 4, Stride = 4, Data = length h0\<rparr>, nodes_m = None,
                    self_m = Num 0, absent_m = Num (- 1)\<rparr>
                  (h0 @ [replicate 16 (Num 0)]))"
  by (simp add: NewDirectedMatrix_def float_eq_def fill_diag_4 alloc_def NewDense_def deref_def)

lemma fill_diag_2: "fill_diag [Num 0, Num 0, Num 0, Num 0] 2 (Num 0) 0 = Some (Inr [Num 0, Num 0, Num 0, Num 0])"
  by (simp add: fill_diag.simps eval_nat_numeral)

lemma Weight_m_absent:
  "x \<noteq> y \<Longrightarrow> \<not> (Has_m g x \<and> Has_m g y) \<Longrightarrow> Weight_m h g x y = Inr (absent_m g, False)"
  by (auto simp: Weight_m_def Has_m_def)

text \<open>
  Claim C1, as the spec states it, fails at \<^verbatim>\<open>Weight(1,0)\<close>. \<^verbatim>\<open>NewDirectedMatrix(4, 0, 0, -1)\<close>
  sets every cell off the diagonal to \<^verbatim>\<open>init = 0\<close>, which is not the absent value \<open>-1\<close>, so
  every edge is there from the start with weight 0; and \<^verbatim>\<open>Weight\<close> returns the cell and true
  for any two different ids in range. After \<^verbatim>\<open>SetEdge\<close> of 0->1 with weight 2.5,
  \<^verbatim>\<open>Weight(1,0)\<close> is \<open>(0, true)\<close>, not \<open>(-1, false)\<close>.
\<close>

theorem dense_round_trip_counterexample:
  "NewDirectedMatrix [] 4 (Num 0) (Num 0) (Num (- 1)) =
     Some (Return \<lparr>mat_m = \<lparr>Rows = 4, Cols = 4, Stride = 4, Data = 0\<rparr>, nodes_m = None,
                    self_m = Num 0, absent_m = Num (- 1)\<rparr>
                  [replicate 16 (Num 0)]) \<and>
   SetEdge_m [replicate 16 (Num 0)]
      \<lparr>mat_m = \<lparr>Rows = 4, Cols = 4, Stride = 4, Data = 0\<rparr>, nodes_m = None,
        self_m = Num 0, absent_m = Num (- 1)\<rparr>
      (Edge (Node 0) (Node 1) (Num 2.5)) = Return () [(replicate 16 (Num 0))[1 := Num 2.5]] \<and>
   Weight_m [(replicate 16 (Num 0))[1 := Num 2.5]]
      \<lparr>mat_m = \<lparr>Rows = 4, Cols = 4, Stride = 4, Data = 0\<rparr>, nodes_m = None,
        self_m = Num 0, absent_m = Num (- 1)\<rparr> 1 0 = Inr (Num 0, True) \<and>
   Weight_m [(replicate 16 (Num 0))[1 := Num 2.5]]
      \<lparr>mat_m = \<lparr>Rows = 4, Cols = 4, Stride = 4, Data = 0\<rparr>, nodes_m = None,
        self_m = Num 0, absent_m = Num (- 1)\<rparr> 1 0 \<noteq> Inr (Num (- 1), False)"
  using New_4[of "[]"]
  by (simp add: SetEdge_m_def Set_def deref_def Weight_m_def has_m_def Dims_def At_def)

text \<open>
  Claim C1, amended. After \<^verbatim>\<open>NewDirectedMatrix(4, 0.0, 0.0, -1.0)\<close> (in any heap) and
  \<^verbatim>\<open>SetEdge\<close> of an edge 0->1 with weight 2.5: \<^verbatim>\<open>Weight(0,1)\<close> is \<open>(2.5, true)\<close>,
  \<^verbatim>\<open>Weight(1,0)\<close> is \<open>(0.0, true)\<close> (the edge 1->0 is there, \<^verbatim>\<open>HasEdgeFromTo(1,0)\<close>, with the
  initial weight), and \<^verbatim>\<open>Weight(2,2)\<close> is \<open>(0.0, true)\<close>. In general, for \<open>x \<noteq> y\<close> of which one
  is not a node of the store, \<^verbatim>\<open>Weight(x,y)\<close> is the absent value and false.
\<close>

theorem dense_round_trip:
  "(\<exists>g h h'.
      NewDirectedMatrix h0 4 (Num 0) (Num 0) (Num (- 1)) = Some (Return g h) \<and>
      SetEdge_m h g (Edge (Node 0) (Node 1) (Num 2.5)) = Return () h' \<and>
      Weight_m h' g 0 1 = Inr (Num 2.5, True) \<and>
      Weight_m h' g 1 0 = Inr (Num 0, True) \<and>
      HasEdgeFromTo_m h' g 1 0 = Inr True \<and>
      Weight_m h' g 2 2 = Inr (Num 0, True)) \<and>
   (\<forall>h g x y. x \<noteq> y \<and> \<not> (Has_m g x \<and> Has_m g y) \<longrightarrow> Weight_m h g x y = Inr (absent_m g, False))"
proof -
  let ?g = "\<lparr>mat_m = \<lparr>Rows = 4, Cols = 4, Stride = 4, Data = length h0\<rparr>, nodes_m = None,
                    self_m = Num 0, absent_m = Num (- 1)\<rparr>"
  let ?h = "h0 @ [replicate 16 (Num 0)]"
  let ?h' = "h0 @ [(replicate 16 (Num 0))[1 := Num 2.5]]"
  have s: "SetEdge_m ?h ?g (Edge (Node 0) (Node 1) (Num 2.5)) = Return () ?h'"
    by (simp add: SetEdge_m_def Set_def deref_def nth_append)
  have w: "Weight_m ?h' ?g 0 1 = Inr (Num 2.5, True) \<and> Weight_m ?h' ?g 1 0 = Inr (Num 0, True) \<and>
      HasEdgeFromTo_m ?h' ?g 1 0 = Inr True \<and> Weight_m ?h' ?g 2 2 = Inr (Num 0, True)"
    by (simp add: Weight_m_def HasEdgeFromTo_m_def has_m_def Dims_def At_def Let_def isSame_def float_eq_def IsNaN_def)
  have "\<exists>g h h'.
      NewDirectedMatrix h0 4 (Num 0) (Num 0) (Num (- 1)) = Some (Return g h) \<and>
      SetEdge_m h g (Edge (Node 0) (Node 1) (Num 2.5)) = Return () h' \<and>
      Weight_m h' g 0 1 = Inr (Num 2.5, True) \<and>
      Weight_m h' g 1 0 = Inr (Num 0, True) \<and>
      HasEdgeFromTo_m h' g 1 0 = Inr True \<and>
      Weight_m h' g 2 2 = Inr (Num 0, True)"
    apply (rule exI[of _ ?g], rule exI[of _ ?h], rule exI[of _ ?h'])
    using New_4[of h0] s w by simp
  then show ?thesis using Weight_m_absent by blast
qed


theorem dense_round_trip_witness:
  "Weight_m [] \<lparr>mat_m = \<lparr>Rows = 4, Cols = 4, Stride = 4, Data = 0\<rparr>, nodes_m = None,
                 self_m = Num 0, absent_m = Num (- 1)\<rparr> 1 9 = Inr (Num (- 1), False)"
proof -
  let ?g = "\<lparr>mat_m = \<lparr>Rows = 4, Cols = 4, Stride = 4, Data = 0\<rparr>, nodes_m = None,
                 self_m = Num 0, absent_m = Num (- 1)\<rparr>"
  have h: "(1::int) \<noteq> 9 \<and> \<not> (Has_m ?g 1 \<and> Has_m ?g 9)"
    by (simp add: Has_m_def has_m_def Dims_def)
  from dense_round_trip[of "[]"] have "\<forall>h g x y. x \<noteq> y \<and> \<not> (Has_m g x \<and> Has_m g y) \<longrightarrow> Weight_m h g x y = Inr (absent_m g, False)"
    by (rule conjunct2)
  then have "Weight_m [] ?g 1 9 = Inr (absent_m ?g, False)" using h by blast
  then show ?thesis by simp
qed


text \<open>Queries on a node that is not there. The sparse stores, and \<^verbatim>\<open>From\<close> and \<^verbatim>\<open>To\<close> of the
  dense store, test for the node first and answer empty or zero.\<close>

lemma absent_node_d:
  assumes "nodes_d (run_d (NewDirectedGraph s a) ops) n = None"
  shows "From_d order (run_d (NewDirectedGraph s a) ops) n = [] \<and>
         To_d order (run_d (NewDirectedGraph s a) ops) n = [] \<and>
         Degree_d (run_d (NewDirectedGraph s a) ops) n = 0"
proof -
  have "dom (from_d (run_d (NewDirectedGraph s a) ops)) = dom (nodes_d (run_d (NewDirectedGraph s a) ops))"
    using inv_d_run[of s a ops] by (simp add: inv_d_def)
  then have "from_d (run_d (NewDirectedGraph s a) ops) n = None"
    using assms by (metis domIff)
  then show ?thesis using assms by (simp add: From_d_def To_d_def Degree_d_def)
qed

lemma absent_node_u:
  "nodes_u g n = None \<Longrightarrow> From_u order g n = [] \<and> Degree_u g n = 0"
  by (simp add: From_u_def Degree_u_def Has_u_def)

text \<open>\<^verbatim>\<open>Degree\<close> of the dense store does not test: its first loop reads row \<open>j\<close> of the matrix,
  which panics in any store with a node when \<open>j\<close> is not one.\<close>

lemma Degree_m_absent_panics:
  assumes "1 \<le> Rows (mat_m g)" "\<not> Has_m g j"
  shows "Degree_m h g j = Inl ErrRowAccess"
proof -
  have j: "j \<noteq> 0" "\<not> (0 \<le> j \<and> j < Rows (mat_m g))"
    using assms by (auto simp: Has_m_def has_m_def Dims_def)
  have "Degree_row h g j (Rows (mat_m g)) 0 0 = Inl ErrRowAccess"
    using assms(1) j by (simp add: Degree_row.simps[of h g j _ 0 0] At_def)
  then show ?thesis by (simp add: Degree_m_def Dims_def)
qed

lemma From_To_m_absent: "\<not> Has_m g j \<Longrightarrow> From_m h g j = Inr [] \<and> To_m h g j = Inr []"
  by (simp add: From_m_def To_m_def Has_m_def)

text \<open>
  Claim C3 fails for \<^verbatim>\<open>Degree\<close> of the dense store. In the store of
  \<^verbatim>\<open>NewDirectedMatrix(4, 0, 0, -1)\<close> the id 7 is not a node; \<^verbatim>\<open>From(7)\<close> and \<^verbatim>\<open>To(7)\<close> are
  empty, and \<^verbatim>\<open>Degree(7)\<close> panics with the matrix library's row index error instead of
  returning 0.
\<close>

theorem dense_Degree_absent_node:
  "NewDirectedMatrix [] 4 (Num 0) (Num 0) (Num (- 1)) =
     Some (Return \<lparr>mat_m = \<lparr>Rows = 4, Cols = 4, Stride = 4, Data = 0\<rparr>, nodes_m = None,
                    self_m = Num 0, absent_m = Num (- 1)\<rparr>
                  [replicate 16 (Num 0)]) \<and>
   Has_m \<lparr>mat_m = \<lparr>Rows = 4, Cols = 4, Stride = 4, Data = 0\<rparr>, nodes_m = None,
                    self_m = Num 0, absent_m = Num (- 1)\<rparr> 7 = False \<and>
   From_m [replicate 16 (Num 0)] \<lparr>mat_m = \<lparr>Rows = 4, Cols = 4, Stride = 4, Data = 0\<rparr>, nodes_m = None,
                    self_m = Num 0, absent_m = Num (- 1)\<rparr> 7 = Inr [] \<and>
   To_m [replicate 16 (Num 0)] \<lparr>mat_m = \<lparr>Rows = 4, Cols = 4, Stride = 4, Data = 0\<rparr>, nodes_m = None,
                    self_m = Num 0, absent_m = Num (- 1)\<rparr> 7 = Inr [] \<and>
   Degree_m [replicate 16 (Num 0)] \<lparr>mat_m = \<lparr>Rows = 4, Cols = 4, Stride = 4, Data = 0\<rparr>, nodes_m = None,
                    self_m = Num 0, absent_m = Num (- 1)\<rparr> 7 = Inl ErrRowAccess"
  using New_4[of "[]"]
  by (simp add: Has_m_def has_m_def Dims_def From_m_def To_m_def Degree_m_def Degree_row.simps[of _ _ 7 4 0 0] At_def)

text \<open>For a size \<open>n \<ge> 0\<close> the constructor returns, and what it returns is a store with
  as many cells as its dimensions say; \<^verbatim>\<open>SetEdge\<close> keeps it so.\<close>

lemma fill_diag_total:
  "0 \<le> n \<Longrightarrow> 0 \<le> i \<Longrightarrow>
     \<exists>mat'. fill_diag mat n self i = Some (Inr mat') \<and> length mat' = length mat"
proof (induction "nat (int (length mat) - i)" arbitrary: mat i rule: less_induct)
  case less
  show ?case
  proof (cases "i < int (length mat)")
    case False
    then show ?thesis by (simp add: fill_diag.simps[of mat n self i])
  next
    case True
    have "nat (int (length (mat[nat i := self])) - (i + (n + 1))) < nat (int (length mat) - i)"
      using True less.prems by simp
    from less.hyps[OF this less.prems(1)] less.prems
    obtain mat' where "fill_diag (mat[nat i := self]) n self (i + (n + 1)) = Some (Inr mat')"
      "length mat' = length (mat[nat i := self])"
      by force
    then show ?thesis using True less.prems by (simp add: fill_diag.simps[of mat n self i])
  qed
qed

lemma NewDirectedMatrix_valid:
  assumes "0 \<le> n"
  shows "\<exists>g h'. NewDirectedMatrix h n init self absent = Some (Return g h') \<and> valid_m h' g"
proof -
  let ?mat1 = "if \<not> float_eq init (Num 0) then map (\<lambda>_. init) (replicate (nat (n * n)) (Num 0))
               else replicate (nat (n * n)) (Num 0)"
  obtain mat2 where f: "fill_diag ?mat1 n self 0 = Some (Inr mat2)" and l: "length mat2 = length ?mat1"
    using fill_diag_total[OF assms, of 0 ?mat1 self] by auto
  have l2: "int (length mat2) = n * n" using l assms by simp
  show ?thesis
    using f l2 assms
    by (simp add: NewDirectedMatrix_def Let_def alloc_def NewDense_def deref_def valid_m_def)
qed

lemma SetEdge_m_valid: "valid_m h g \<Longrightarrow> valid_m (state_of (SetEdge_m h g e)) g"
  by (auto simp: SetEdge_m_def Set_def Let_def valid_m_def deref_def split: sum.splits)

text \<open>
  Claim C4, as the spec states it, fails: \<^verbatim>\<open>Matrix\<close> copies the header of the matrix, not its
  cells. In the store of \<^verbatim>\<open>NewDirectedMatrix(2, 0, 0, -1)\<close>, \<^verbatim>\<open>Weight(0,1)\<close> is \<open>(0, true)\<close>;
  after \<^verbatim>\<open>Set(0, 1, 7)\<close> on the matrix that \<^verbatim>\<open>Matrix\<close> returned it is \<open>(7, true)\<close>.
\<close>

theorem Matrix_shares_cells_counterexample:
  "NewDirectedMatrix [] 2 (Num 0) (Num 0) (Num (- 1)) =
     Some (Return \<lparr>mat_m = \<lparr>Rows = 2, Cols = 2, Stride = 2, Data = 0\<rparr>, nodes_m = None,
                    self_m = Num 0, absent_m = Num (- 1)\<rparr>
                  [[Num 0, Num 0, Num 0, Num 0]]) \<and>
   Weight_m [[Num 0, Num 0, Num 0, Num 0]]
      \<lparr>mat_m = \<lparr>Rows = 2, Cols = 2, Stride = 2, Data = 0\<rparr>, nodes_m = None,
        self_m = Num 0, absent_m = Num (- 1)\<rparr> 0 1 = Inr (Num 0, True) \<and>
   Set [[Num 0, Num 0, Num 0, Num 0]]
      (Matrix_m \<lparr>mat_m = \<lparr>Rows = 2, Cols = 2, Stride = 2, Data = 0\<rparr>, nodes_m = None,
        self_m = Num 0, absent_m = Num (- 1)\<rparr>) 0 1 (Num 7) = Inr [[Num 0, Num 7, Num 0, Num 0]] \<and>
   Weight_m [[Num 0, Num 7, Num 0, Num 0]]
      \<lparr>mat_m = \<lparr>Rows = 2, Cols = 2, Stride = 2, Data = 0\<rparr>, nodes_m = None,
        self_m = Num 0, absent_m = Num (- 1)\<rparr> 0 1 = Inr (Num 7, True)"
  by (simp add: NewDirectedMatrix_def float_eq_def fill_diag_2 alloc_def NewDense_def deref_def
        Weight_m_def has_m_def Dims_def At_def Set_def Matrix_m_def eval_nat_numeral)

text \<open>
  Claim C4, amended. The matrix that \<^verbatim>\<open>Matrix\<close> returns is a copy of the header only (the
  dimensions, which a caller therefore cannot alter in the store); it shares the cells with
  the store. For every store as \<^verbatim>\<open>NewDirectedMatrix\<close> builds them, every two different node
  ids \<open>i\<close> and \<open>j\<close> and every value \<open>v\<close>: \<^verbatim>\<open>Set(i, j, v)\<close> on the returned matrix succeeds, and
  afterwards \<^verbatim>\<open>Weight(i,j)\<close> of the store is \<open>(v, true)\<close>.
\<close>

theorem Matrix_shares_cells:
  assumes v: "valid_m h g" and i: "Has_m g i" and j: "Has_m g j" and ne: "i \<noteq> j"
  shows "\<exists>h'. Set h (Matrix_m g) i j v = Inr h' \<and> Weight_m h' g i j = Inr (v, True) \<and> valid_m h' g"
proof -
  let ?n = "Rows (mat_m g)"
  let ?k = "i * ?n + j"
  have b: "0 \<le> i" "i < ?n" "0 \<le> j" "j < ?n"
    using i j by (auto simp: Has_m_def has_m_def Dims_def)
  have c: "Cols (mat_m g) = ?n" "Stride (mat_m g) = ?n" "Data (mat_m g) < length h"
    "int (length (h ! Data (mat_m g))) = ?n * ?n"
    using v by (auto simp: valid_m_def)
  have "i * ?n \<le> (?n - 1) * ?n" using b by (intro mult_right_mono) auto
  then have k: "0 \<le> ?k" "?k < ?n * ?n" using b by (auto simp: algebra_simps)
  have kl: "nat ?k < length (h ! Data (mat_m g))"
    using k c(4) by linarith
  let ?h' = "h[Data (mat_m g) := (h ! Data (mat_m g))[nat ?k := v]]"
  have s: "Set h (Matrix_m g) i j v = Inr ?h'"
    using b c k by (simp add: Set_def Matrix_m_def deref_def Let_def)
  have w: "Weight_m ?h' g i j = Inr (v, True)"
    using b c k kl ne by (simp add: Weight_m_def has_m_def Dims_def At_def deref_def Let_def)
  have v': "valid_m ?h' g" using v by (simp add: valid_m_def)
  show ?thesis using s w v' by blast
qed

theorem Matrix_shares_cells_witness:
  "\<exists>h'. Set [[Num 0, Num 0, Num 0, Num 0]]
          (Matrix_m \<lparr>mat_m = \<lparr>Rows = 2, Cols = 2, Stride = 2, Data = 0\<rparr>, nodes_m = None,
                     self_m = Num 0, absent_m = Num (- 1)\<rparr>) 0 1 (Num 7) = Inr h' \<and>
        Weight_m h' \<lparr>mat_m = \<lparr>Rows = 2, Cols = 2, Stride = 2, Data = 0\<rparr>, nodes_m = None,
                     self_m = Num 0, absent_m = Num (- 1)\<rparr> 0 1 = Inr (Num 7, True)"
proof -
  let ?g = "\<lparr>mat_m = \<lparr>Rows = 2, Cols = 2, Stride = 2, Data = 0\<rparr>, nodes_m = None,
             self_m = Num 0, absent_m = Num (- 1)\<rparr>"
  have v: "valid_m [[Num 0, Num 0, Num 0, Num 0]] ?g"
    by (simp add: valid_m_def)
  have i: "Has_m ?g 0" and j: "Has_m ?g 1"
    by (simp_all add: Has_m_def has_m_def Dims_def)
  have ne: "(0::int) \<noteq> 1" by simp
  show ?thesis using Matrix_shares_cells[OF v i j ne, of "Num 7"] by blast
qed

section \<open>Copy from the undirected store into the directed store\<close>

lemma SetEdge_u_01:
  "SetEdge_u (NewUndirectedGraph (Num 0) (Num 0)) (Edge (Node 0) (Node 1) (Num 1)) =
     Return ()
       \<lparr>nodes_u = [0 \<mapsto> Node 0, 1 \<mapsto> Node 1],
        edges_u = [0 \<mapsto> [1 \<mapsto> Edge (Node 0) (Node 1) (Num 1)],
                   1 \<mapsto> [0 \<mapsto> Edge (Node 0) (Node 1) (Num 1)]],
        self_u = Num 0, absent_u = Num 0, freeIDs_u = {}, usedIDs_u = {0, 1}\<rparr>"
  by (simp add: SetEdge_u_def NewUndirectedGraph_def AddNode_u_def Has_u_def Let_def
        fun_upd_twist insert_commute)

text \<open>
  Claim C7 fails where the source is the undirected store and the destination the directed
  one. The undirected store with the one edge \<open>e\<close> between the nodes 0 and 1 (set as 0->1)
  answers \<^verbatim>\<open>Edge(0,1)\<close> and \<^verbatim>\<open>Edge(1,0)\<close> with the same \<open>e\<close>, whose \<^verbatim>\<open>From\<close> is 0; so \<^verbatim>\<open>Copy\<close>
  calls \<^verbatim>\<open>SetEdge(e)\<close> twice. In whichever order \<^verbatim>\<open>Nodes\<close> lists the two nodes, the
  destination ends with the edge 0->1 and without the edge 1->0.
\<close>

theorem Copy_undirected_into_directed:
  "\<exists>src. SetEdge_u (NewUndirectedGraph (Num 0) (Num 0)) (Edge (Node 0) (Node 1) (Num 1)) =
            Return () src \<and>
      EdgeBetween_u src 0 1 = Some (Edge (Node 0) (Node 1) (Num 1)) \<and>
      EdgeBetween_u src 1 0 = Some (Edge (Node 0) (Node 1) (Num 1)) \<and>
      (\<exists>d. Copy Builder_d (Graph_u [0, 1] src) (NewDirectedGraph (Num 0) (Num 0)) = Return () d \<and>
           HasEdgeFromTo_d d 0 1 \<and> \<not> HasEdgeFromTo_d d 1 0) \<and>
      (\<exists>d. Copy Builder_d (Graph_u [1, 0] src) (NewDirectedGraph (Num 0) (Num 0)) = Return () d \<and>
           HasEdgeFromTo_d d 0 1 \<and> \<not> HasEdgeFromTo_d d 1 0)"
  unfolding SetEdge_u_01
  by (simp add: Copy_def Graph_u_def Builder_d_def Nodes_u_def From_u_def Edge_u_def
        EdgeBetween_u_def range_keys_def Has_u_def NewDirectedGraph_def AddNode_d_def
        SetEdge_d_def Has_d_def Let_def HasEdgeFromTo_d_def)

end
